theory Spec2Isabelle
  imports Complex_Main "HOL-Library.AList"
begin

section \<open>Values\<close>

text \<open>
  The program moves parsed JSON around without fixing a schema: an API answer, a config
  document and a stat record are all Python values built from \<open>None\<close>, booleans,
  numbers, strings, lists and dicts. A dict keeps its keys in insertion order and holds
  each key once, so it is an association list here (\<open>map_of\<close> looks a key up,
  \<open>AList.update\<close> is the assignment \<open>d[k] = v\<close>: in place for a key that is
  present, at the end for a new one). Floats are only ever passed through.
\<close>

datatype json =
    JNull
  | JBool bool
  | JInt int
  | JFloat real
  | JStr string
  | JArr "json list"
  | JObj "(string \<times> json) list"

type_synonym dict = "(string \<times> json) list"

text \<open>
  \<open>str(v)\<close>: a string is returned as it is; for every other value Python prints its
  \<open>repr\<close>, which is the builtin's business and is taken as a parameter.
\<close>

definition py_str :: "(json \<Rightarrow> string) \<Rightarrow> json \<Rightarrow> string" where
  "py_str repr v = (case v of JStr s \<Rightarrow> s | _ \<Rightarrow> repr v)"

section \<open>src/api.py\<close>

text \<open>
  The methods of \<open>BF6APIClient\<close> are functions of the client, the network and the
  state; a leading underscore of a Python name is dropped (\<open>_request\<close> is
  \<open>request\<close>). Time is in seconds; \<open>time.sleep(d)\<close> moves the clock forward by
  \<open>d\<close>. \<open>max_retries\<close> is a count: a negative value would give the empty
  \<open>range\<close>, as 0 does. The only methods the module ever passes to \<open>_request\<close>
  are \<open>"GET"\<close> and \<open>"POST"\<close>.
\<close>

definition BASE_URL :: string where
  "BASE_URL = ''https://api.gametools.network''"

definition DEFAULT_RATE_LIMIT_SEC :: real where
  "DEFAULT_RATE_LIMIT_SEC = 1"

definition MAX_RETRIES :: nat where
  "MAX_RETRIES = 3"

definition RETRY_BACKOFF_SEC :: real where
  "RETRY_BACKOFF_SEC = 1"

text \<open>
  The text of a \<open>BF6APIError\<close> is an f-string; each constructor below is one of the
  f-strings of the module with the values it interpolates.
\<close>

datatype message =
    Request_failed string              \<comment> \<open>\<open>Request failed: {e}\<close>\<close>
  | Server_error int string            \<comment> \<open>\<open>Server error {status}: {text[:200]}\<close>\<close>
  | API_error int json                 \<comment> \<open>\<open>API error {status}: {errors}\<close>\<close>
  | Invalid_JSON_response string       \<comment> \<open>\<open>Invalid JSON response: {e}\<close>\<close>
  | Max_retries_exceeded
  | Could_not_resolve_player string string

datatype error =
    BF6APIError message
  | ValueError string
  | TypeError string
  | IndexError
  | FileNotFoundError string
  | ImportError string
  | ParseError string
  | SqliteBindError string

datatype http_method = GET | POST

record http_request =
  req_method :: http_method
  req_url :: string
  req_params :: "(string \<times> string) list option"
  req_json :: "json option"

text \<open>
  What \<open>requests.get\<close> / \<open>requests.post\<close> can do: raise a
  \<open>RequestException\<close>, or hand back a response with its status code, its body text
  and the outcome of \<open>r.json()\<close> on it (\<open>Inl\<close> the exception text when the body
  does not parse).
\<close>

datatype http_outcome =
    RequestException string
  | Response int string "string + json"

text \<open>
  The remote side: the answer to the \<open>n\<close>-th HTTP request of the run and the time the
  exchange takes.
\<close>

type_synonym network = "nat \<Rightarrow> http_request \<Rightarrow> http_outcome \<times> real"

datatype event =
    RateLimitSleep real     \<comment> \<open>the \<open>time.sleep\<close> of \<open>_wait_rate_limit\<close>\<close>
  | BackoffSleep real       \<comment> \<open>the \<open>time.sleep\<close> of \<open>_sleep_or_raise\<close>\<close>
  | Http http_request       \<comment> \<open>one call of \<open>requests.get\<close> or \<open>requests.post\<close>\<close>

record client =
  base_url :: string
  rate_limit_sec :: real
  max_retries :: nat

text \<open>
  The mutable part: the monotonic clock, the client's \<open>_last_request_time\<close>, the
  number of HTTP requests issued so far and the log of what was done, oldest first.
\<close>

record state =
  now :: real
  last_request_time :: real
  sent :: nat
  trace :: "event list"

definition rstrip_slash :: "string \<Rightarrow> string" where
  "rstrip_slash s = rev (dropWhile (\<lambda>c. c = CHR ''/'') (rev s))"

definition BF6APIClient :: "string \<Rightarrow> real \<Rightarrow> nat \<Rightarrow> state \<Rightarrow> client \<times> state" where
  "BF6APIClient url rl mr st =
     (\<lparr>base_url = rstrip_slash url, rate_limit_sec = rl, max_retries = mr\<rparr>,
      st\<lparr>last_request_time := 0\<rparr>)"

definition wait_rate_limit :: "client \<Rightarrow> state \<Rightarrow> state" where
  "wait_rate_limit c st =
     (let elapsed = now st - last_request_time st;
          st1 = (if elapsed < rate_limit_sec c
                 then st\<lparr>now := now st + (rate_limit_sec c - elapsed),
                         trace := trace st @ [RateLimitSleep (rate_limit_sec c - elapsed)]\<rparr>
                 else st)
      in st1\<lparr>last_request_time := now st1\<rparr>)"

definition sleep_or_raise :: "client \<Rightarrow> nat \<Rightarrow> message \<Rightarrow> state \<Rightarrow> (error + unit) \<times> state" where
  "sleep_or_raise c attempt msg st =
     (if attempt = max_retries c - 1
      then (Inl (BF6APIError msg), st)
      else (Inr (),
            st\<lparr>now := now st + RETRY_BACKOFF_SEC * (real attempt + 1),
               trace := trace st @ [BackoffSleep (RETRY_BACKOFF_SEC * (real attempt + 1))]\<rparr>))"

definition http_send :: "network \<Rightarrow> http_request \<Rightarrow> state \<Rightarrow> http_outcome \<times> state" where
  "http_send net rq st =
     (case net (sent st) rq of
        (out, took) \<Rightarrow>
          (out, st\<lparr>now := now st + took, sent := Suc (sent st), trace := trace st @ [Http rq]\<rparr>))"

text \<open>The \<open>errors\<close> value of the 4xx branch of \<open>_request\<close>.\<close>

definition reported_errors :: "string \<Rightarrow> string + json \<Rightarrow> json" where
  "reported_errors txt js =
     (case js of
        Inr (JObj err) \<Rightarrow>
          (case map_of err ''errors'' of
             Some e \<Rightarrow> e
           | None \<Rightarrow> JArr [JStr (take 200 txt)])
      | _ \<Rightarrow> JArr [JStr (take 200 txt)])"

text \<open>
  The body of \<open>_request\<close>: the \<open>for attempt in range(self.max_retries)\<close> loop over
  the attempts still to make, and the \<open>raise\<close> behind it.
\<close>

fun request_attempts ::
  "client \<Rightarrow> network \<Rightarrow> http_request \<Rightarrow> nat list \<Rightarrow> state \<Rightarrow> (error + json) \<times> state" where
  "request_attempts c net rq [] st = (Inl (BF6APIError Max_retries_exceeded), st)"
| "request_attempts c net rq (attempt # rest) st =
     (case http_send net rq (wait_rate_limit c st) of
        (RequestException e, st2) \<Rightarrow>
          (case sleep_or_raise c attempt (Request_failed e) st2 of
             (Inl err, st3) \<Rightarrow> (Inl err, st3)
           | (Inr _, st3) \<Rightarrow> request_attempts c net rq rest st3)
      | (Response status txt js, st2) \<Rightarrow>
          if status \<ge> 500 then
            (case sleep_or_raise c attempt (Server_error status (take 200 txt)) st2 of
               (Inl err, st3) \<Rightarrow> (Inl err, st3)
             | (Inr _, st3) \<Rightarrow> request_attempts c net rq rest st3)
          else if status \<ge> 400 then
            (Inl (BF6APIError (API_error status (reported_errors txt js))), st2)
          else
            (case js of
               Inl e \<Rightarrow> (Inl (BF6APIError (Invalid_JSON_response e)), st2)
             | Inr v \<Rightarrow> (Inr v, st2)))"

text \<open>
  What goes on the wire: \<open>requests.get(url, params=params)\<close> for a GET,
  \<open>requests.post(url, params=params, json=json)\<close> otherwise.
\<close>

definition http_call ::
  "client \<Rightarrow> http_method \<Rightarrow> string \<Rightarrow> (string \<times> string) list option \<Rightarrow> json option
     \<Rightarrow> http_request" where
  "http_call c m path params body =
     \<lparr>req_method = m, req_url = base_url c @ path, req_params = params,
      req_json = (case m of GET \<Rightarrow> None | POST \<Rightarrow> body)\<rparr>"

definition request ::
  "client \<Rightarrow> network \<Rightarrow> http_method \<Rightarrow> string \<Rightarrow> (string \<times> string) list option \<Rightarrow> json option
     \<Rightarrow> state \<Rightarrow> (error + json) \<times> state" where
  "request c net m path params body st =
     request_attempts c net (http_call c m path params body) [0..<max_retries c] st"

definition get_player_id ::
  "client \<Rightarrow> network \<Rightarrow> string \<Rightarrow> string \<Rightarrow> state \<Rightarrow> (error + dict) \<times> state" where
  "get_player_id c net nm plat st =
     (case request c net GET ''/bf6/player/''
             (Some [(''name'', nm), (''platform'', plat)]) None st of
        (Inl e, st') \<Rightarrow> (Inl e, st')
      | (Inr data, st') \<Rightarrow>
          (case data of
             JObj d \<Rightarrow>
               (if map_of d ''id'' \<noteq> None then (Inr d, st')
                else (Inl (BF6APIError (Could_not_resolve_player nm plat)), st'))
           | JArr (JObj d # _) \<Rightarrow> (Inr d, st')
           | JArr (x # _) \<Rightarrow> (Inr [(''id'', x)], st')
           | _ \<Rightarrow> (Inl (BF6APIError (Could_not_resolve_player nm plat)), st')))"

definition get_stats ::
  "client \<Rightarrow> network \<Rightarrow> (json \<Rightarrow> string) \<Rightarrow> string option \<Rightarrow> json option \<Rightarrow> string \<Rightarrow> state
     \<Rightarrow> (error + json) \<times> state" where
  "get_stats c net repr nm player_id plat st =
     (case player_id of
        Some pid \<Rightarrow>
          request c net GET ''/bf6/stats/''
            (Some [(''platform'', plat), (''playerid'', py_str repr pid)]) None st
      | None \<Rightarrow>
          (case nm of
             Some (ch # n) \<Rightarrow>
               request c net GET ''/bf6/stats/''
                 (Some [(''platform'', plat), (''name'', ch # n)]) None st
           | _ \<Rightarrow> (Inl (ValueError ''Provide either name or player_id''), st)))"

definition batch_body :: "(json \<Rightarrow> string) \<Rightarrow> json list \<Rightarrow> string \<Rightarrow> json" where
  "batch_body repr player_ids plat =
     JObj [(''playerIds'', JArr (map (\<lambda>pid. JStr (py_str repr pid)) player_ids)),
           (''platform'', JStr plat)]"

definition get_stats_batch ::
  "client \<Rightarrow> network \<Rightarrow> (json \<Rightarrow> string) \<Rightarrow> json list \<Rightarrow> string \<Rightarrow> state
     \<Rightarrow> (error + json) \<times> state" where
  "get_stats_batch c net repr player_ids plat st =
     (if player_ids = [] then (Inr (JArr []), st)
      else if length player_ids > 128 then (Inl (ValueError ''Maximum 128 players per batch''), st)
      else
        (case request c net POST ''/bf6/multiple/'' None (Some (batch_body repr player_ids plat)) st of
           (Inl e, st') \<Rightarrow> (Inl e, st')
         | (Inr data, st') \<Rightarrow>
             (case data of
                JArr xs \<Rightarrow> (Inr (JArr xs), st')
              | JObj d \<Rightarrow>
                  (case map_of d ''result'' of
                     Some r \<Rightarrow> (Inr r, st')
                   | None \<Rightarrow> (Inr (JArr [JObj d]), st'))
              | _ \<Rightarrow> (Inr (JArr []), st'))))"

section \<open>src/pipeline.py\<close>

definition BATCH_SIZE :: nat where
  "BATCH_SIZE = 128"

text \<open>A player descriptor: the dict \<open>{"name": ..., "platform": ...}\<close>.\<close>

record descriptor =
  name :: string
  platform :: string

text \<open>
  What \<open>load_config\<close> takes from outside the repository: whether PyYAML was
  importable, the two parsers (\<open>Inl\<close> the text of the exception they raise), the file
  system (\<open>None\<close> when the path does not exist), \<open>path.suffix.lower()\<close> and
  \<open>repr\<close>.
\<close>

record config_env =
  HAS_YAML :: bool
  yaml_safe_load :: "string \<Rightarrow> string + json"
  json_loads :: "string \<Rightarrow> string + json"
  read_text :: "string \<Rightarrow> string option"
  suffix_lower :: "string \<Rightarrow> string"
  py_repr :: "json \<Rightarrow> string"

text \<open>The \<open>for p in players\<close> loop of \<open>load_config\<close>, \<open>out\<close> being the list built so far.\<close>

fun player_entries :: "(json \<Rightarrow> string) \<Rightarrow> json list \<Rightarrow> descriptor list \<Rightarrow> error + descriptor list" where
  "player_entries repr [] out = Inr out"
| "player_entries repr (p # ps) out =
     (case p of
        JObj d \<Rightarrow>
          (case map_of d ''name'' of
             Some n \<Rightarrow>
               player_entries repr ps
                 (out @ [\<lparr>name = py_str repr n,
                          platform = py_str repr
                            (case map_of d ''platform'' of Some v \<Rightarrow> v | None \<Rightarrow> JStr ''pc'')\<rparr>])
           | None \<Rightarrow> Inl (ValueError (''Invalid player entry: '' @ py_str repr p)))
      | _ \<Rightarrow> Inl (ValueError (''Invalid player entry: '' @ py_str repr p)))"

text \<open>\<open>data.get("players", data) if isinstance(data, dict) else data\<close>\<close>

definition players_of :: "json \<Rightarrow> json" where
  "players_of data =
     (case data of
        JObj d \<Rightarrow> (case map_of d ''players'' of Some ps \<Rightarrow> ps | None \<Rightarrow> data)
      | _ \<Rightarrow> data)"

definition config_players :: "(json \<Rightarrow> string) \<Rightarrow> json \<Rightarrow> error + descriptor list" where
  "config_players repr data =
     (case players_of data of
        JArr ps \<Rightarrow> player_entries repr ps []
      | _ \<Rightarrow> Inl (ValueError ''Config must contain a 'players' list''))"

text \<open>
  The first half of \<open>load_config\<close>: find the file, pick the parser by suffix, parse.
\<close>

definition config_document :: "config_env \<Rightarrow> string \<Rightarrow> error + json" where
  "config_document env path =
     (case read_text env path of
        None \<Rightarrow> Inl (FileNotFoundError (''Config not found: '' @ path))
      | Some txt \<Rightarrow>
          (let suffix = suffix_lower env path in
           if suffix = ''.yaml'' \<or> suffix = ''.yml'' then
             (if \<not> HAS_YAML env
              then Inl (ImportError ''PyYAML required for YAML config. pip install pyyaml'')
              else (case yaml_safe_load env txt of
                      Inl e \<Rightarrow> Inl (ParseError e)
                    | Inr data \<Rightarrow> Inr data))
           else if suffix = ''.json'' then
             (case json_loads env txt of
                Inl e \<Rightarrow> Inl (ParseError e)
              | Inr data \<Rightarrow> Inr data)
           else Inl (ValueError (''Unsupported config format: '' @ suffix @ ''. Use .yaml or .json''))))"

definition load_config :: "config_env \<Rightarrow> string \<Rightarrow> error + descriptor list" where
  "load_config env path =
     (case config_document env path of
        Inl e \<Rightarrow> Inl e
      | Inr data \<Rightarrow> config_players (py_repr env) data)"

text \<open>
  \<open>ids_by_platform\<close> is a dict from platform to the list of its resolved ids, in the
  order the platforms were inserted. \<open>ids_by_platform.setdefault(platform, []).append(pid)\<close>:
\<close>

fun setdefault_append :: "string \<Rightarrow> string \<Rightarrow> (string \<times> string list) list \<Rightarrow> (string \<times> string list) list" where
  "setdefault_append k v [] = [(k, [v])]"
| "setdefault_append k v ((k', vs) # rest) =
     (if k' = k then (k', vs @ [v]) # rest else (k', vs) # setdefault_append k v rest)"

text \<open>\<open>str(info.get("id", info) if isinstance(info, dict) else info)\<close>, \<open>info\<close> being a dict.\<close>

definition pid_of :: "(json \<Rightarrow> string) \<Rightarrow> dict \<Rightarrow> string" where
  "pid_of repr info = py_str repr (case map_of info ''id'' of Some v \<Rightarrow> v | None \<Rightarrow> JObj info)"

text \<open>The first loop of batch mode: \<open>for p in players\<close>, resolving ids.\<close>

fun resolve_ids ::
  "client \<Rightarrow> network \<Rightarrow> (json \<Rightarrow> string) \<Rightarrow> descriptor list \<Rightarrow> (string \<times> string list) list \<Rightarrow> state
     \<Rightarrow> (error + (string \<times> string list) list) \<times> state" where
  "resolve_ids c net repr [] ids_by_platform st = (Inr ids_by_platform, st)"
| "resolve_ids c net repr (p # ps) ids_by_platform st =
     (case get_player_id c net (name p) (platform p) st of
        (Inr info, st') \<Rightarrow>
          resolve_ids c net repr ps
            (setdefault_append (platform p) (pid_of repr info) ids_by_platform) st'
      | (Inl (BF6APIError _), st') \<Rightarrow> resolve_ids c net repr ps ids_by_platform st'
      | (Inl e, st') \<Rightarrow> (Inl e, st'))"

text \<open>\<open>range(start, stop, step)\<close> for a positive step, as the list of its values.\<close>

function py_range :: "nat \<Rightarrow> nat \<Rightarrow> nat \<Rightarrow> nat list" where
  "py_range start stop step =
     (if step = 0 \<or> stop \<le> start then [] else start # py_range (start + step) stop step)"
  by pat_completeness auto
termination
  by (relation "measure (\<lambda>(start, stop, step). stop - start)") auto

declare py_range.simps [simp del]

text \<open>
  \<open>results.extend(batch)\<close>: a list is appended; a dict is iterated by its keys and a
  string by its characters; anything else is not iterable.
\<close>

definition py_iter :: "json \<Rightarrow> error + json list" where
  "py_iter v =
     (case v of
        JArr xs \<Rightarrow> Inr xs
      | JObj d \<Rightarrow> Inr (map (\<lambda>kv. JStr (fst kv)) d)
      | JStr s \<Rightarrow> Inr (map (\<lambda>ch. JStr [ch]) s)
      | _ \<Rightarrow> Inl (TypeError ''object is not iterable''))"

definition py_extend :: "json list \<Rightarrow> json \<Rightarrow> error + json list" where
  "py_extend results batch =
     (case py_iter batch of
        Inl e \<Rightarrow> Inl e
      | Inr items \<Rightarrow> Inr (results @ items))"

text \<open>
  The inner loop of batch mode, \<open>for i in range(0, len(id_list), BATCH_SIZE)\<close>, over
  the offsets still to visit.
\<close>

fun fetch_chunks ::
  "client \<Rightarrow> network \<Rightarrow> (json \<Rightarrow> string) \<Rightarrow> string \<Rightarrow> string list \<Rightarrow> nat list \<Rightarrow> json list \<Rightarrow> state
     \<Rightarrow> (error + json list) \<times> state" where
  "fetch_chunks c net repr plat id_list [] results st = (Inr results, st)"
| "fetch_chunks c net repr plat id_list (i # rest) results st =
     (case get_stats_batch c net repr (map JStr (take BATCH_SIZE (drop i id_list))) plat st of
        (Inl e, st') \<Rightarrow> (Inl e, st')
      | (Inr batch, st') \<Rightarrow>
          (case py_extend results batch of
             Inl e \<Rightarrow> (Inl e, st')
           | Inr results' \<Rightarrow> fetch_chunks c net repr plat id_list rest results' st'))"

text \<open>The outer loop, \<open>for platform, id_list in ids_by_platform.items()\<close>.\<close>

fun fetch_groups ::
  "client \<Rightarrow> network \<Rightarrow> (json \<Rightarrow> string) \<Rightarrow> (string \<times> string list) list \<Rightarrow> json list \<Rightarrow> state
     \<Rightarrow> (error + json list) \<times> state" where
  "fetch_groups c net repr [] results st = (Inr results, st)"
| "fetch_groups c net repr ((plat, id_list) # groups) results st =
     (case fetch_chunks c net repr plat id_list (py_range 0 (length id_list) BATCH_SIZE) results st of
        (Inl e, st') \<Rightarrow> (Inl e, st')
      | (Inr results', st') \<Rightarrow> fetch_groups c net repr groups results' st')"

text \<open>Single mode: \<open>for p in players\<close>, one \<open>get_stats\<close> each.\<close>

fun fetch_single ::
  "client \<Rightarrow> network \<Rightarrow> (json \<Rightarrow> string) \<Rightarrow> descriptor list \<Rightarrow> json list \<Rightarrow> state
     \<Rightarrow> (error + json list) \<times> state" where
  "fetch_single c net repr [] results st = (Inr results, st)"
| "fetch_single c net repr (p # ps) results st =
     (case get_stats c net repr (Some (name p)) None (platform p) st of
        (Inr stats, st') \<Rightarrow> fetch_single c net repr ps (results @ [stats]) st'
      | (Inl (BF6APIError _), st') \<Rightarrow> fetch_single c net repr ps results st'
      | (Inl e, st') \<Rightarrow> (Inl e, st'))"

definition run_pipeline ::
  "network \<Rightarrow> (json \<Rightarrow> string) \<Rightarrow> descriptor list \<Rightarrow> bool \<Rightarrow> real \<Rightarrow> state
     \<Rightarrow> (error + json list) \<times> state" where
  "run_pipeline net repr players use_batch rl st0 =
     (case BF6APIClient BASE_URL rl MAX_RETRIES st0 of
        (c, st) \<Rightarrow>
          if use_batch \<and> length players > 1 then
            (case resolve_ids c net repr players [] st of
               (Inl e, st') \<Rightarrow> (Inl e, st')
             | (Inr ids_by_platform, st') \<Rightarrow> fetch_groups c net repr ids_by_platform [] st')
          else fetch_single c net repr players [] st)"

section \<open>src/storage.py\<close>

text \<open>
  The writers are functions of the wall clock and of the disk. Creating a directory and
  writing a file are taken to succeed; what can fail in the module itself (the empty list
  given to \<open>save_csv\<close>, \<open>summaries[0]\<close>) or in the database driver (a value it
  cannot bind) returns an error.
\<close>

definition SUMMARY_KEYS :: "string list" where
  "SUMMARY_KEYS =
     [''userName'', ''id'', ''userId'', ''kills'', ''deaths'', ''wins'', ''loses'',
      ''winPercent'', ''killDeath'', ''killsPerMinute'', ''damagePerMinute'', ''accuracy'',
      ''headshots'', ''timePlayed'', ''secondsPlayed'', ''matchesPlayed'', ''revives'',
      ''heals'', ''resupplies'', ''repairs'']"

definition SQLITE_COLUMNS :: "string list" where
  "SQLITE_COLUMNS = [''run_id'', ''fetched_at''] @ SUMMARY_KEYS"

text \<open>
  A reading of \<open>datetime.now(timezone.utc)\<close>, and the two renderings the module
  makes of it: \<open>isoformat()\<close> (which leaves the microseconds out when they are zero)
  and \<open>strftime("%Y%m%d_%H%M%S")\<close>.
\<close>

record datetime =
  dt_year :: nat
  dt_month :: nat
  dt_day :: nat
  dt_hour :: nat
  dt_minute :: nat
  dt_second :: nat
  dt_microsecond :: nat

fun zpad :: "nat \<Rightarrow> nat \<Rightarrow> string" where
  "zpad 0 n = []"
| "zpad (Suc w) n = zpad w (n div 10) @ [''0123456789'' ! (n mod 10)]"

definition isoformat :: "datetime \<Rightarrow> string" where
  "isoformat t =
     zpad 4 (dt_year t) @ ''-'' @ zpad 2 (dt_month t) @ ''-'' @ zpad 2 (dt_day t) @ ''T''
     @ zpad 2 (dt_hour t) @ '':'' @ zpad 2 (dt_minute t) @ '':'' @ zpad 2 (dt_second t)
     @ (if dt_microsecond t = 0 then [] else ''.'' @ zpad 6 (dt_microsecond t))
     @ ''+00:00''"

definition strftime_compact :: "datetime \<Rightarrow> string" where
  "strftime_compact t =
     zpad 4 (dt_year t) @ zpad 2 (dt_month t) @ zpad 2 (dt_day t) @ ''_''
     @ zpad 2 (dt_hour t) @ zpad 2 (dt_minute t) @ zpad 2 (dt_second t)"

text \<open>\<open>s.replace(old, new)\<close>: every occurrence, left to right, without overlap.\<close>

function str_replace :: "string \<Rightarrow> string \<Rightarrow> string \<Rightarrow> string" where
  "str_replace old new [] = (if old = [] then new else [])"
| "str_replace old new (ch # s) =
     (if old = [] then new @ ch # str_replace old new s
      else if take (length old) (ch # s) = old
           then new @ str_replace old new (drop (length old) (ch # s))
           else ch # str_replace old new s)"
  by pat_completeness auto
termination
  by (relation "measure (\<lambda>(old, new, s). length s)") auto

definition utc_stamp :: "datetime \<Rightarrow> string" where
  "utc_stamp t = str_replace ''+00:00'' ''Z'' (isoformat t)"

text \<open>
  The world of the writers: how many times the wall clock has been read (the
  \<open>n\<close>-th reading is \<open>clock n\<close>), the directories made, the CSV files written and,
  for each database file, the rows of its \<open>stats\<close> table (no entry: no such table yet).
\<close>

record csv_doc =
  csv_header :: "string list"
  csv_rows :: "json list list"

record disk =
  tick :: nat
  dirs :: "string set"
  csv_files :: "string \<rightharpoonup> csv_doc"
  stats_tables :: "string \<rightharpoonup> dict list"

definition utc_now :: "(nat \<Rightarrow> datetime) \<Rightarrow> disk \<Rightarrow> datetime \<times> disk" where
  "utc_now clock d = (clock (tick d), d\<lparr>tick := Suc (tick d)\<rparr>)"

text \<open>\<open>Path(output_dir) / name\<close>\<close>

definition path_join :: "string \<Rightarrow> string \<Rightarrow> string" where
  "path_join dir file = dir @ ''/'' @ file"

definition stats_filename :: "(nat \<Rightarrow> datetime) \<Rightarrow> string option \<Rightarrow> string \<Rightarrow> disk \<Rightarrow> string \<times> disk" where
  "stats_filename clock run_id ext d =
     (case run_id of
        Some (ch # r) \<Rightarrow> (''stats_'' @ (ch # r) @ ''.'' @ ext, d)
      | _ \<Rightarrow>
          (case utc_now clock d of
             (t, d') \<Rightarrow> (''stats_'' @ strftime_compact t @ ''.'' @ ext, d')))"

definition ensure_output_dir :: "string \<Rightarrow> disk \<Rightarrow> string \<times> disk" where
  "ensure_output_dir output_dir d = (output_dir, d\<lparr>dirs := insert output_dir (dirs d)\<rparr>)"

text \<open>The \<open>for key in SUMMARY_KEYS\<close> loop of \<open>flatten_summary\<close>.\<close>

fun copy_keys :: "string list \<Rightarrow> dict \<Rightarrow> dict \<Rightarrow> dict" where
  "copy_keys [] stats out = out"
| "copy_keys (key # keys) stats out =
     (case map_of stats key of
        Some v \<Rightarrow> copy_keys keys stats (AList.update key v out)
      | None \<Rightarrow> copy_keys keys stats out)"

definition flatten_summary :: "(nat \<Rightarrow> datetime) \<Rightarrow> dict \<Rightarrow> disk \<Rightarrow> dict \<times> disk" where
  "flatten_summary clock stats d =
     (case utc_now clock d of
        (t, d') \<Rightarrow> (copy_keys SUMMARY_KEYS stats [(''fetched_at'', JStr (utc_stamp t))], d'))"

text \<open>\<open>[flatten_summary(r) for r in results]\<close>\<close>

fun flatten_all :: "(nat \<Rightarrow> datetime) \<Rightarrow> dict list \<Rightarrow> disk \<Rightarrow> dict list \<times> disk" where
  "flatten_all clock [] d = ([], d)"
| "flatten_all clock (r # rs) d =
     (case flatten_summary clock r d of
        (s, d') \<Rightarrow> (case flatten_all clock rs d' of (ss, d'') \<Rightarrow> (s # ss, d'')))"

text \<open>The inner loop of \<open>_all_summary_keys\<close>: \<open>for k in s: if k not in keys: keys.append(k)\<close>.\<close>

fun append_new_keys :: "string list \<Rightarrow> string list \<Rightarrow> string list" where
  "append_new_keys keys [] = keys"
| "append_new_keys keys (k # ks) =
     append_new_keys (if k \<in> set keys then keys else keys @ [k]) ks"

fun collect_keys :: "string list \<Rightarrow> dict list \<Rightarrow> string list" where
  "collect_keys keys [] = keys"
| "collect_keys keys (s # ss) = collect_keys (append_new_keys keys (map fst s)) ss"

definition all_summary_keys :: "dict list \<Rightarrow> error + string list" where
  "all_summary_keys summaries =
     (case summaries of
        [] \<Rightarrow> Inl IndexError
      | s # ss \<Rightarrow> Inr (collect_keys (map fst s) ss))"

text \<open>
  What \<open>csv.DictWriter\<close> writes for one dict: the value of each field name in turn,
  the empty string (\<open>restval\<close>) where the dict has none.
\<close>

definition csv_row :: "string list \<Rightarrow> dict \<Rightarrow> json list" where
  "csv_row fieldnames s =
     map (\<lambda>k. case map_of s k of Some v \<Rightarrow> v | None \<Rightarrow> JStr []) fieldnames"

definition save_csv ::
  "(nat \<Rightarrow> datetime) \<Rightarrow> dict list \<Rightarrow> string \<Rightarrow> string option \<Rightarrow> disk \<Rightarrow> (error + string) \<times> disk" where
  "save_csv clock results output_dir run_id d =
     (if results = [] then (Inl (ValueError ''No results to write to CSV''), d)
      else
        (case flatten_all clock results d of
           (summaries, d1) \<Rightarrow>
             (case ensure_output_dir output_dir d1 of
                (out_dir, d2) \<Rightarrow>
                  (case stats_filename clock run_id ''csv'' d2 of
                     (file, d3) \<Rightarrow>
                       (case all_summary_keys summaries of
                          Inl e \<Rightarrow> (Inl e, d3)
                        | Inr fieldnames \<Rightarrow>
                            (Inr (path_join out_dir file),
                             d3\<lparr>csv_files := (csv_files d3)
                                  (path_join out_dir file \<mapsto>
                                     \<lparr>csv_header = fieldnames,
                                      csv_rows = map (csv_row fieldnames) summaries\<rparr>)\<rparr>))))))"

text \<open>
  The values the \<open>sqlite3\<close> driver binds to a placeholder: \<open>None\<close>, numbers that fit
  a 64-bit integer, floats and strings. A list or a dict makes \<open>execute\<close> raise.
\<close>

definition sqlite_bindable :: "json \<Rightarrow> bool" where
  "sqlite_bindable v =
     (case v of
        JArr _ \<Rightarrow> False
      | JObj _ \<Rightarrow> False
      | JInt n \<Rightarrow> - (2 ^ 63) \<le> n \<and> n < 2 ^ 63
      | _ \<Rightarrow> True)"

text \<open>\<open>{c: summary.get(c) for c in SQLITE_COLUMNS}\<close>\<close>

definition sqlite_row :: "dict \<Rightarrow> dict" where
  "sqlite_row summary =
     map (\<lambda>c. (c, case map_of summary c of Some v \<Rightarrow> v | None \<Rightarrow> JNull)) SQLITE_COLUMNS"

text \<open>
  The \<open>for stat in results\<close> loop of \<open>save_sqlite\<close>; \<open>pending\<close> holds the rows
  inserted so far in the open transaction.
\<close>

fun insert_rows ::
  "(nat \<Rightarrow> datetime) \<Rightarrow> string \<Rightarrow> string \<Rightarrow> dict list \<Rightarrow> dict list \<Rightarrow> disk
     \<Rightarrow> (error + dict list) \<times> disk" where
  "insert_rows clock rid fetched_at [] pending d = (Inr pending, d)"
| "insert_rows clock rid fetched_at (stat # rest) pending d =
     (case flatten_summary clock stat d of
        (summary, d') \<Rightarrow>
          (let row = sqlite_row
                       (AList.update ''fetched_at'' (JStr fetched_at)
                          (AList.update ''run_id'' (JStr rid) summary))
           in if list_all (\<lambda>cv. sqlite_bindable (snd cv)) row
              then insert_rows clock rid fetched_at rest (pending @ [row]) d'
              else (Inl (SqliteBindError ''Error binding parameter''), d')))"

text \<open>\<open>run_id or now.strftime("%Y%m%d_%H%M%S")\<close>: the caller's run id unless it is empty.\<close>

definition run_id_of :: "string option \<Rightarrow> datetime \<Rightarrow> string" where
  "run_id_of run_id t = (case run_id of Some (ch # r) \<Rightarrow> ch # r | _ \<Rightarrow> strftime_compact t)"

text \<open>The rows of the \<open>stats\<close> table of a database file, none when there is no table.\<close>

definition table_rows :: "disk \<Rightarrow> string \<Rightarrow> dict list" where
  "table_rows d db_path = (case stats_tables d db_path of Some rows \<Rightarrow> rows | None \<Rightarrow> [])"

text \<open>
  \<open>save_sqlite\<close>. \<open>CREATE TABLE IF NOT EXISTS\<close> takes effect at once; the inserted
  rows reach the table at \<open>commit\<close>, and are dropped when the connection is closed
  without it.
\<close>

definition save_sqlite ::
  "(nat \<Rightarrow> datetime) \<Rightarrow> dict list \<Rightarrow> string \<Rightarrow> string \<Rightarrow> string option \<Rightarrow> disk
     \<Rightarrow> (error + string) \<times> disk" where
  "save_sqlite clock results output_dir db_name run_id d =
     (if results = [] then (Inr (path_join output_dir db_name), d)
      else
        (case ensure_output_dir output_dir d of
           (out_dir, d1) \<Rightarrow>
             (case utc_now clock d1 of
                (t, d2) \<Rightarrow>
                  (let db_path = path_join out_dir db_name;
                       fetched_at = utc_stamp t;
                       rid = run_id_of run_id t;
                       existing = table_rows d2 db_path;
                       d3 = d2\<lparr>stats_tables := (stats_tables d2)(db_path \<mapsto> existing)\<rparr>
                   in case insert_rows clock rid fetched_at results [] d3 of
                        (Inl e, d4) \<Rightarrow> (Inl e, d4)
                      | (Inr pending, d4) \<Rightarrow>
                          (Inr db_path,
                           d4\<lparr>stats_tables := (stats_tables d4)(db_path \<mapsto> existing @ pending)\<rparr>)))))"

section \<open>Vocabulary of the properties\<close>

subsection \<open>The client\<close>

text \<open>
  A failure the client retries: the HTTP library raised, or the server answered with a
  status of 500 or more. \<open>failure_message\<close> is the message \<open>_request\<close> builds for it.
\<close>

definition retryable_failure :: "http_outcome \<Rightarrow> bool" where
  "retryable_failure out =
     (case out of RequestException _ \<Rightarrow> True | Response status _ _ \<Rightarrow> status \<ge> 500)"

definition failure_message :: "http_outcome \<Rightarrow> message" where
  "failure_message out =
     (case out of
        RequestException e \<Rightarrow> Request_failed e
      | Response status txt _ \<Rightarrow> Server_error status (take 200 txt))"

text \<open>The log without the waits of the rate limiter: HTTP requests and backoff sleeps.\<close>

definition is_rate_limit_sleep :: "event \<Rightarrow> bool" where
  "is_rate_limit_sleep e = (case e of RateLimitSleep _ \<Rightarrow> True | _ \<Rightarrow> False)"

definition own_events :: "event list \<Rightarrow> event list" where
  "own_events evs = filter (\<lambda>e. \<not> is_rate_limit_sleep e) evs"

text \<open>The state after one attempt has waited for the rate limiter and sent its request.\<close>

definition attempt_state :: "client \<Rightarrow> network \<Rightarrow> http_request \<Rightarrow> state \<Rightarrow> state" where
  "attempt_state c net rq st = snd (http_send net rq (wait_rate_limit c st))"

text \<open>The state after the backoff sleep that follows failed attempt number \<open>attempt\<close>.\<close>

definition backoff_state :: "nat \<Rightarrow> state \<Rightarrow> state" where
  "backoff_state attempt st =
     st\<lparr>now := now st + RETRY_BACKOFF_SEC * (real attempt + 1),
        trace := trace st @ [BackoffSleep (RETRY_BACKOFF_SEC * (real attempt + 1))]\<rparr>"

subsection \<open>Concrete clients, servers and states\<close>

definition client0 :: client where
  "client0 = \<lparr>base_url = BASE_URL, rate_limit_sec = 1, max_retries = 3\<rparr>"

definition state0 :: state where
  "state0 = \<lparr>now = 0, last_request_time = 0, sent = 0, trace = []\<rparr>"

definition repr0 :: "json \<Rightarrow> string" where
  "repr0 v = (case v of JInt n \<Rightarrow> (if n = 1 then ''1'' else ''0'') | _ \<Rightarrow> ''?'')"

text \<open>A server that is down, one that rejects every request, one that answers \<open>v\<close>.\<close>

definition net_unavailable :: network where
  "net_unavailable n rq = (Response 503 ''Service Unavailable'' (Inl ''Expecting value''), 0)"

definition net_rejects :: network where
  \<open>net_rejects n rq =
     (Response 404 ''{"errors": ["player not found"]}''
        (Inr (JObj [(''errors'', JArr [JStr ''player not found''])])), 0)\<close>

definition net_answers :: "json \<Rightarrow> network" where
  "net_answers v n rq = (Response 200 [] (Inr v), 0)"

definition stats_request :: http_request where
  "stats_request = http_call client0 GET ''/bf6/stats/'' (Some [(''platform'', ''pc''), (''name'', ''foo'')]) None"

subsection \<open>The config loader\<close>

text \<open>
  A valid player entry and the descriptor it stands for: an object with a \<open>name\<close>,
  whose \<open>platform\<close> is \<open>pc\<close> when it gives none. Anything else is no entry.
\<close>

definition entry_descriptor :: "(json \<Rightarrow> string) \<Rightarrow> json \<Rightarrow> descriptor option" where
  "entry_descriptor repr p =
     (case p of
        JObj d \<Rightarrow>
          (case map_of d ''name'' of
             Some n \<Rightarrow>
               Some \<lparr>name = py_str repr n,
                     platform = (case map_of d ''platform'' of
                                   Some v \<Rightarrow> py_str repr v
                                 | None \<Rightarrow> ''pc'')\<rparr>
           | None \<Rightarrow> None)
      | _ \<Rightarrow> None)"

text \<open>The two shapes of a document that hold a list of entries.\<close>

definition holds_players :: "json \<Rightarrow> json list \<Rightarrow> bool" where
  "holds_players data entries =
     (case data of
        JArr xs \<Rightarrow> xs = entries
      | JObj d \<Rightarrow> map_of d ''players'' = Some (JArr entries)
      | _ \<Rightarrow> False)"

text \<open>A config file on disk, for the examples.\<close>

definition config_doc0 :: json where
  "config_doc0 =
     JObj [(''players'',
            JArr [JObj [(''name'', JStr ''foo'')],
                  JObj [(''name'', JStr ''bar''), (''platform'', JStr ''psn'')]])]"

definition config_env0 :: config_env where
  "config_env0 =
     \<lparr>HAS_YAML = False,
      yaml_safe_load = (\<lambda>txt. Inl ''no yaml''),
      json_loads = (\<lambda>txt. if txt = ''players.json text'' then Inr config_doc0 else Inl ''Expecting value''),
      read_text = (\<lambda>p. if p = ''players.json'' then Some ''players.json text'' else None),
      suffix_lower = (\<lambda>p. if p = ''players.json'' then ''.json'' else []),
      py_repr = repr0\<rparr>"

subsection \<open>The writers\<close>

text \<open>The elements of a list in the order of their first occurrence.\<close>

definition first_seen :: "'a list \<Rightarrow> 'a list" where
  "first_seen xs = rev (remdups (rev xs))"

text \<open>
  The keys of the summary of one record: \<open>fetched_at\<close>, then the keys of the allow-list
  that the record has, in the order of the allow-list.
\<close>

definition summary_keys :: "dict \<Rightarrow> string list" where
  "summary_keys stats = ''fetched_at'' # filter (\<lambda>k. map_of stats k \<noteq> None) SUMMARY_KEYS"

text \<open>The summary \<open>flatten_summary\<close> builds when it reads the clock for the \<open>i\<close>-th time.\<close>

definition summary_at :: "(nat \<Rightarrow> datetime) \<Rightarrow> nat \<Rightarrow> dict \<Rightarrow> dict" where
  "summary_at clock i stats =
     copy_keys SUMMARY_KEYS stats [(''fetched_at'', JStr (utc_stamp (clock i)))]"

text \<open>
  The row of the \<open>stats\<close> table for one record: the run id, the timestamp of the call,
  and for each key of the allow-list the record's value, \<open>NULL\<close> where it has none.
\<close>

definition stored_row :: "string \<Rightarrow> string \<Rightarrow> dict \<Rightarrow> dict" where
  "stored_row rid fetched_at stats =
     (''run_id'', JStr rid) # (''fetched_at'', JStr fetched_at)
     # map (\<lambda>c. (c, case map_of stats c of Some v \<Rightarrow> v | None \<Rightarrow> JNull)) SUMMARY_KEYS"

text \<open>A record whose allow-listed values the database driver can all bind.\<close>

definition storable :: "dict \<Rightarrow> bool" where
  "storable stats =
     list_all (\<lambda>c. case map_of stats c of Some v \<Rightarrow> sqlite_bindable v | None \<Rightarrow> True) SUMMARY_KEYS"

text \<open>A clock, an empty disk and two stat records, for the examples.\<close>

definition clock0 :: "nat \<Rightarrow> datetime" where
  "clock0 n = \<lparr>dt_year = 2026, dt_month = 1, dt_day = 2, dt_hour = 3, dt_minute = 4,
               dt_second = n mod 60, dt_microsecond = 0\<rparr>"

definition disk0 :: disk where
  "disk0 = \<lparr>tick = 0, dirs = {}, csv_files = Map.empty, stats_tables = Map.empty\<rparr>"

definition stats_foo :: dict where
  "stats_foo = [(''id'', JInt 1), (''userName'', JStr ''foo''), (''kills'', JInt 10)]"

definition stats_bar :: dict where
  "stats_bar = [(''userName'', JStr ''bar''), (''deaths'', JInt 3), (''weapons'', JArr [])]"

text \<open>
  A disk whose database already holds one row from an earlier run, and a record with a
  list under an allow-listed key.
\<close>

definition disk1 :: disk where
  "disk1 = disk0\<lparr>stats_tables :=
             [''out/bf6_stats.db'' \<mapsto> [stored_row ''r0'' ''2026-01-01T00:00:00Z'' stats_bar]]\<rparr>"

definition stats_nested :: dict where
  "stats_nested = [(''userName'', JStr ''foo''), (''kills'', JArr [JInt 10])]"

subsection \<open>The pipeline\<close>

text \<open>
  The descriptors that resolve, in input order, each with its platform and its id; a
  descriptor whose lookup fails is left out.
\<close>

fun resolutions ::
  "client \<Rightarrow> network \<Rightarrow> (json \<Rightarrow> string) \<Rightarrow> descriptor list \<Rightarrow> state
     \<Rightarrow> (string \<times> string) list \<times> state" where
  "resolutions c net repr [] st = ([], st)"
| "resolutions c net repr (p # ps) st =
     (case get_player_id c net (name p) (platform p) st of
        (Inr info, st') \<Rightarrow>
          (case resolutions c net repr ps st' of
             (pairs, st'') \<Rightarrow> ((platform p, pid_of repr info) # pairs, st''))
      | (Inl e, st') \<Rightarrow> resolutions c net repr ps st')"

text \<open>
  Grouping by platform: one group per platform, in the order the platforms first occur,
  each holding the ids of its platform in their order.
\<close>

definition group_by_platform :: "(string \<times> string) list \<Rightarrow> (string \<times> string list) list" where
  "group_by_platform pairs =
     map (\<lambda>p. (p, map snd (filter (\<lambda>kv. fst kv = p) pairs))) (first_seen (map fst pairs))"

text \<open>The chunks the inner loop cuts an id list into, and the calls a list of groups leads to.\<close>

definition id_chunks :: "string list \<Rightarrow> string list list" where
  "id_chunks id_list =
     map (\<lambda>i. take BATCH_SIZE (drop i id_list)) (py_range 0 (length id_list) BATCH_SIZE)"

definition batch_plan :: "(string \<times> string list) list \<Rightarrow> (string \<times> string list) list" where
  "batch_plan groups = concat (map (\<lambda>(plat, ids). map (\<lambda>ch. (plat, ch)) (id_chunks ids)) groups)"

text \<open>
  Making the planned calls one after the other: each is one \<open>get_stats_batch\<close>, the
  records of the answers are concatenated in the order of the calls, and the first error
  ends the run.
\<close>

fun call_batches ::
  "client \<Rightarrow> network \<Rightarrow> (json \<Rightarrow> string) \<Rightarrow> (string \<times> string list) list \<Rightarrow> state
     \<Rightarrow> (error + json list) \<times> state" where
  "call_batches c net repr [] st = (Inr [], st)"
| "call_batches c net repr ((plat, chunk) # plan) st =
     (case get_stats_batch c net repr (map JStr chunk) plat st of
        (Inl e, st') \<Rightarrow> (Inl e, st')
      | (Inr batch, st') \<Rightarrow>
          (case py_iter batch of
             Inl e \<Rightarrow> (Inl e, st')
           | Inr items \<Rightarrow>
               (case call_batches c net repr plan st' of
                  (Inl e, st'') \<Rightarrow> (Inl e, st'')
                | (Inr later, st'') \<Rightarrow> (Inr (items @ later), st''))))"

text \<open>Putting results found earlier in front of an outcome.\<close>

definition after :: "json list \<Rightarrow> (error + json list) \<times> state \<Rightarrow> (error + json list) \<times> state" where
  "after results out =
     (case out of
        (Inl e, st) \<Rightarrow> (Inl e, st)
      | (Inr items, st) \<Rightarrow> (Inr (results @ items), st))"

text \<open>
  Servers for the examples: one that resolves every name to itself and answers a batch
  with the ids it was sent, and one that resolves names but is down for batches.
\<close>

definition net_echo :: network where
  "net_echo n rq =
     (case req_method rq of
        GET \<Rightarrow>
          (Response 200 []
             (Inr (JObj [(''id'', JStr (case req_params rq of
                                          Some ps \<Rightarrow> (case map_of ps ''name'' of Some nm \<Rightarrow> nm | None \<Rightarrow> [])
                                        | None \<Rightarrow> []))])), 0)
      | POST \<Rightarrow>
          (Response 200 []
             (Inr (case req_json rq of
                     Some (JObj b) \<Rightarrow> (case map_of b ''playerIds'' of Some ids \<Rightarrow> ids | None \<Rightarrow> JArr [])
                   | _ \<Rightarrow> JArr [])), 0))"

definition net_batch_down :: network where
  "net_batch_down n rq =
     (case req_method rq of
        GET \<Rightarrow> (Response 200 [] (Inr (JObj [(''id'', JInt 1)])), 0)
      | POST \<Rightarrow> (Response 503 ''Service Unavailable'' (Inl ''Expecting value''), 0))"

definition players0 :: "descriptor list" where
  "players0 = [\<lparr>name = ''ann'', platform = ''pc''\<rparr>, \<lparr>name = ''bob'', platform = ''psn''\<rparr>,
               \<lparr>name = ''cat'', platform = ''pc''\<rparr>]"

section \<open>The retry loop of the client\<close>

lemma sent_wait [simp]: "sent (wait_rate_limit c st) = sent st"
  by (simp add: wait_rate_limit_def Let_def)

lemma own_events_wait [simp]: "own_events (trace (wait_rate_limit c st)) = own_events (trace st)"
  by (simp add: wait_rate_limit_def Let_def own_events_def is_rate_limit_sleep_def)

lemma sent_attempt_state [simp]: "sent (attempt_state c net rq st) = Suc (sent st)"
  by (simp add: attempt_state_def http_send_def split: prod.splits)

lemma own_events_attempt_state [simp]:
  "own_events (trace (attempt_state c net rq st)) = own_events (trace st) @ [Http rq]"
proof -
  have "trace (attempt_state c net rq st) = trace (wait_rate_limit c st) @ [Http rq]"
    by (simp add: attempt_state_def http_send_def split: prod.splits)
  then have "own_events (trace (attempt_state c net rq st))
             = own_events (trace (wait_rate_limit c st)) @ [Http rq]"
    by (simp add: own_events_def is_rate_limit_sleep_def)
  then show ?thesis by simp
qed

lemma sent_backoff_state [simp]: "sent (backoff_state a st) = sent st"
  by (simp add: backoff_state_def)

lemma own_events_backoff_state [simp]:
  "own_events (trace (backoff_state a st)) = own_events (trace st) @ [BackoffSleep (real a + 1)]"
  by (simp add: backoff_state_def own_events_def is_rate_limit_sleep_def RETRY_BACKOFF_SEC_def)

text \<open>One turn of the loop, by what the network did.\<close>

lemma attempt_retry:
  assumes "retryable_failure (fst (net (sent st) rq))" "attempt \<noteq> max_retries c - 1"
  shows "request_attempts c net rq (attempt # rest) st =
         request_attempts c net rq rest (backoff_state attempt (attempt_state c net rq st))"
  using assms
  by (auto simp: attempt_state_def backoff_state_def http_send_def retryable_failure_def
        sleep_or_raise_def
      split: prod.splits http_outcome.splits)

lemma attempt_last:
  assumes "retryable_failure (fst (net (sent st) rq))" "attempt = max_retries c - 1"
  shows "request_attempts c net rq (attempt # rest) st =
         (Inl (BF6APIError (failure_message (fst (net (sent st) rq)))), attempt_state c net rq st)"
  using assms
  by (auto simp: attempt_state_def http_send_def retryable_failure_def sleep_or_raise_def
        failure_message_def
      split: prod.splits http_outcome.splits)

lemma attempt_final:
  assumes "\<not> retryable_failure (fst (net (sent st) rq))"
  shows "snd (request_attempts c net rq (attempt # rest) st) = attempt_state c net rq st"
  using assms
  by (auto simp: attempt_state_def http_send_def retryable_failure_def
      split: prod.splits http_outcome.splits sum.splits)

lemma attempt_4xx:
  assumes "net (sent st) rq = (Response status txt js, took)" "400 \<le> status" "status < 500"
  shows "request_attempts c net rq (attempt # rest) st =
         (Inl (BF6APIError (API_error status (reported_errors txt js))), attempt_state c net rq st)"
  using assms
  by (auto simp: attempt_state_def http_send_def split: prod.splits http_outcome.splits)

lemma attempt_error_is_client_error:
  "fst (request_attempts c net rq as st) = Inl e \<Longrightarrow> \<exists>m. e = BF6APIError m"
proof (induction as arbitrary: st)
  case Nil
  then show ?case by auto
next
  case (Cons a as)
  then show ?case
    by (auto simp: sleep_or_raise_def split: prod.splits http_outcome.splits if_splits sum.splits)
qed

declare request_attempts.simps(2) [simp del]

lemma attempt_cases:
  "(request_attempts c net rq (a # as) st =
      request_attempts c net rq as (backoff_state a (attempt_state c net rq st)))
   \<or> snd (request_attempts c net rq (a # as) st) = attempt_state c net rq st"
proof (cases "retryable_failure (fst (net (sent st) rq))")
  case True
  then show ?thesis
    using attempt_retry [of net st rq a c as] attempt_last [of net st rq a c as]
    by (cases "a = max_retries c - 1") auto
next
  case False
  then show ?thesis by (simp add: attempt_final)
qed

lemma sent_request_attempts:
  "sent (snd (request_attempts c net rq as st)) \<le> sent st + length as"
proof (induction as arbitrary: st)
  case Nil
  then show ?case by simp
next
  case (Cons a as)
  from attempt_cases [of c net rq a as st] show ?case
  proof
    assume "request_attempts c net rq (a # as) st =
            request_attempts c net rq as (backoff_state a (attempt_state c net rq st))"
    then show ?thesis
      using Cons.IH [of "backoff_state a (attempt_state c net rq st)"] by simp
  next
    assume "snd (request_attempts c net rq (a # as) st) = attempt_state c net rq st"
    then show ?thesis by simp
  qed
qed

lemma three_attempts: "[0..<3] = [0, 1, 2::nat]"
  by code_simp

lemma request_three:
  "max_retries c = 3 \<Longrightarrow>
   request c net m path params body st =
   request_attempts c net (http_call c m path params body) [0, 1, 2] st"
  by (simp add: request_def three_attempts)

lemma request_at_most_three:
  assumes "max_retries c = 3"
  shows "sent (snd (request c net m path params body st)) \<le> sent st + 3"
  using sent_request_attempts [of c net "http_call c m path params body" "[0, 1, 2]" st]
  by (simp add: request_three [OF assms])

lemma request_all_fail:
  assumes mr: "max_retries c = 3" and rq: "rq = http_call c m path params body"
    and all: "\<forall>k<3. retryable_failure (fst (net (sent st + k) rq))"
  shows "fst (request c net m path params body st)
           = Inl (BF6APIError (failure_message (fst (net (sent st + 2) rq))))
         \<and> own_events (trace (snd (request c net m path params body st)))
           = own_events (trace st) @ [Http rq, BackoffSleep 1, Http rq, BackoffSleep 2, Http rq]"
proof -
  have unf: "request c net m path params body st = request_attempts c net rq [0, 1, 2] st"
    using request_three [OF mr] rq by simp
  have f0: "retryable_failure (fst (net (sent st) rq))"
    using all [rule_format, of 0] by simp
  have f1: "retryable_failure (fst (net (Suc (sent st)) rq))"
    using all [rule_format, of 1] by simp
  have f2: "retryable_failure (fst (net (Suc (Suc (sent st))) rq))"
    using all [rule_format, of 2] by simp
  let ?s1 = "backoff_state 0 (attempt_state c net rq st)"
  let ?s2 = "backoff_state 1 (attempt_state c net rq ?s1)"
  have a0: "request_attempts c net rq [0, 1, 2] st = request_attempts c net rq [1, 2] ?s1"
    using f0 mr by (intro attempt_retry) simp_all
  have a1: "request_attempts c net rq [1, 2] ?s1 = request_attempts c net rq [2] ?s2"
    using f1 mr by (intro attempt_retry) simp_all
  have a2: "request_attempts c net rq [2] ?s2 =
            (Inl (BF6APIError (failure_message (fst (net (sent ?s2) rq)))), attempt_state c net rq ?s2)"
    using f2 mr by (intro attempt_last) simp_all
  show ?thesis
    unfolding unf a0 a1 a2 by simp
qed

lemma request_retries:
  assumes mr: "max_retries c = 3" and rq: "rq = http_call c m path params body"
    and j: "j \<le> 2"
    and fails: "\<forall>k<j. retryable_failure (fst (net (sent st + k) rq))"
    and stops: "j < 2 \<longrightarrow> \<not> retryable_failure (fst (net (sent st + j) rq))"
  shows "own_events (trace (snd (request c net m path params body st)))
         = own_events (trace st)
           @ concat (map (\<lambda>a. [Http rq, BackoffSleep (real a + 1)]) [0..<j]) @ [Http rq]"
proof -
  have unf: "request c net m path params body st = request_attempts c net rq [0, 1, 2] st"
    using request_three [OF mr] rq by simp
  let ?s1 = "backoff_state 0 (attempt_state c net rq st)"
  let ?s2 = "backoff_state 1 (attempt_state c net rq ?s1)"
  from j consider "j = 0" | "j = 1" | "j = 2" by linarith
  then show ?thesis
  proof cases
    case 1
    then have "\<not> retryable_failure (fst (net (sent st) rq))" using stops by simp
    then have "snd (request_attempts c net rq [0, 1, 2] st) = attempt_state c net rq st"
      by (rule attempt_final)
    then show ?thesis unfolding unf using 1 by simp
  next
    case 2
    then have f0: "retryable_failure (fst (net (sent st) rq))"
      and n1: "\<not> retryable_failure (fst (net (Suc (sent st)) rq))"
      using fails stops by simp_all
    have a0: "request_attempts c net rq [0, 1, 2] st = request_attempts c net rq [1, 2] ?s1"
      using f0 mr by (intro attempt_retry) simp_all
    have "snd (request_attempts c net rq [1, 2] ?s1) = attempt_state c net rq ?s1"
      using n1 by (intro attempt_final) simp
    then show ?thesis unfolding unf a0 using 2 by simp
  next
    case 3
    have f0: "retryable_failure (fst (net (sent st) rq))"
      using fails [rule_format, of 0] 3 by simp
    have f1: "retryable_failure (fst (net (Suc (sent st)) rq))"
      using fails [rule_format, of 1] 3 by simp
    have a0: "request_attempts c net rq [0, 1, 2] st = request_attempts c net rq [1, 2] ?s1"
      using f0 mr by (intro attempt_retry) simp_all
    have a1: "request_attempts c net rq [1, 2] ?s1 = request_attempts c net rq [2] ?s2"
      using f1 mr by (intro attempt_retry) simp_all
    have "snd (request_attempts c net rq [2] ?s2) = attempt_state c net rq ?s2"
    proof (cases "retryable_failure (fst (net (sent ?s2) rq))")
      case True
      then show ?thesis using attempt_last [of net ?s2 rq 2 c "[]"] mr by simp
    next
      case False
      then show ?thesis by (rule attempt_final)
    qed
    moreover have "[0..<2] = [0, 1::nat]" by code_simp
    ultimately show ?thesis unfolding unf a0 a1 using 3 by simp
  qed
qed

text \<open>
  C2. A call through \<open>_request\<close> of a client with the default three attempts sends at
  most three HTTP requests. While the network fails or the server answers 5xx the call is
  tried again: after \<open>j\<close> failures (\<open>j\<close> at most 2) it has sent \<open>j + 1\<close> requests and
  slept 1 s after the first failure and 2 s after the second. When all three attempts
  fail it ends in one \<open>BF6APIError\<close>, whose message is that of the third failure, after
  exactly the requests and sleeps: request, 1 s, request, 2 s, request.
\<close>

theorem request_retry_policy:
  assumes "max_retries c = 3" and "rq = http_call c m path params body"
  shows "sent (snd (request c net m path params body st)) \<le> sent st + 3
    \<and> (\<forall>j\<le>2. (\<forall>k<j. retryable_failure (fst (net (sent st + k) rq)))
             \<and> (j < 2 \<longrightarrow> \<not> retryable_failure (fst (net (sent st + j) rq)))
          \<longrightarrow> own_events (trace (snd (request c net m path params body st)))
              = own_events (trace st)
                @ concat (map (\<lambda>a. [Http rq, BackoffSleep (real a + 1)]) [0..<j]) @ [Http rq])
    \<and> ((\<forall>k<3. retryable_failure (fst (net (sent st + k) rq)))
          \<longrightarrow> fst (request c net m path params body st)
                = Inl (BF6APIError (failure_message (fst (net (sent st + 2) rq))))
              \<and> own_events (trace (snd (request c net m path params body st)))
                = own_events (trace st)
                  @ [Http rq, BackoffSleep 1, Http rq, BackoffSleep 2, Http rq])"
  using request_at_most_three [OF assms(1)] request_all_fail [OF assms]
    request_retries [OF assms]
  by blast

theorem request_retry_policy_witness:
  "max_retries client0 = 3
   \<and> retryable_failure (fst (net_unavailable (sent state0 + 0) stats_request))
   \<and> retryable_failure (fst (net_unavailable (sent state0 + 1) stats_request))
   \<and> retryable_failure (fst (net_unavailable (sent state0 + 2) stats_request))
   \<and> fst (request client0 net_unavailable GET ''/bf6/stats/''
            (Some [(''platform'', ''pc''), (''name'', ''foo'')]) None state0)
       = Inl (BF6APIError (Server_error 503 ''Service Unavailable''))
   \<and> own_events (trace (snd (request client0 net_unavailable GET ''/bf6/stats/''
            (Some [(''platform'', ''pc''), (''name'', ''foo'')]) None state0)))
       = [Http stats_request, BackoffSleep 1, Http stats_request, BackoffSleep 2,
          Http stats_request]"
proof -
  have mr: "max_retries client0 = 3" by (simp add: client0_def)
  have fl: "\<forall>k<3. retryable_failure (fst (net_unavailable (sent state0 + k) stats_request))"
    by (simp add: net_unavailable_def retryable_failure_def)
  have ev: "own_events (trace state0) = []"
    by (simp add: state0_def own_events_def)
  have msg: "failure_message (fst (net_unavailable (sent state0 + 2) stats_request))
             = Server_error 503 ''Service Unavailable''"
    by (simp add: net_unavailable_def failure_message_def)
  have "fst (request client0 net_unavailable GET ''/bf6/stats/''
            (Some [(''platform'', ''pc''), (''name'', ''foo'')]) None state0)
          = Inl (BF6APIError (failure_message (fst (net_unavailable (sent state0 + 2) stats_request))))
        \<and> own_events (trace (snd (request client0 net_unavailable GET ''/bf6/stats/''
            (Some [(''platform'', ''pc''), (''name'', ''foo'')]) None state0)))
          = own_events (trace state0)
            @ [Http stats_request, BackoffSleep 1, Http stats_request, BackoffSleep 2,
               Http stats_request]"
    using fl request_retry_policy [OF mr stats_request_def, of net_unavailable state0,
        THEN conjunct2, THEN conjunct2]
    by blast
  then show ?thesis
    using mr by (simp add: ev net_unavailable_def retryable_failure_def failure_message_def)
qed

text \<open>
  C3. A response with a 4xx status ends the call at once, at whichever attempt it
  arrives and whatever attempts remain: one more HTTP request has been sent, no backoff
  sleep follows, and the result is a \<open>BF6APIError\<close> built from the status and from the
  \<open>errors\<close> entry of the parsed body, or from the first 200 characters of the body
  text when the body does not parse (or parses to something without an \<open>errors\<close> entry).
\<close>

theorem request_4xx_fails_at_once:
  assumes "net (sent st) rq = (Response status txt js, took)"
    and "400 \<le> status" and "status < 500"
  shows "fst (request_attempts c net rq (attempt # rest) st)
           = Inl (BF6APIError (API_error status (reported_errors txt js)))
    \<and> sent (snd (request_attempts c net rq (attempt # rest) st)) = Suc (sent st)
    \<and> own_events (trace (snd (request_attempts c net rq (attempt # rest) st)))
        = own_events (trace st) @ [Http rq]
    \<and> (0 < max_retries c \<and> rq = http_call c m path params body
         \<longrightarrow> request c net m path params body st
              = request_attempts c net rq (0 # [1..<max_retries c]) st)
    \<and> (\<forall>d e. js = Inr (JObj d) \<and> map_of d ''errors'' = Some e \<longrightarrow> reported_errors txt js = e)
    \<and> (\<forall>d. js = Inr (JObj d) \<and> map_of d ''errors'' = None
           \<longrightarrow> reported_errors txt js = JArr [JStr (take 200 txt)])
    \<and> (\<forall>e. js = Inl e \<longrightarrow> reported_errors txt js = JArr [JStr (take 200 txt)])
    \<and> ((\<forall>d. js \<noteq> Inr (JObj d)) \<longrightarrow> reported_errors txt js = JArr [JStr (take 200 txt)])"
proof -
  have "request_attempts c net rq (attempt # rest) st =
        (Inl (BF6APIError (API_error status (reported_errors txt js))), attempt_state c net rq st)"
    using assms by (rule attempt_4xx)
  moreover have "0 < max_retries c \<Longrightarrow> [0..<max_retries c] = 0 # [1..<max_retries c]"
    by (simp add: upt_rec)
  moreover have "(\<forall>d. js \<noteq> Inr (JObj d)) \<Longrightarrow> reported_errors txt js = JArr [JStr (take 200 txt)]"
    by (auto simp: reported_errors_def split: sum.splits json.splits)
  ultimately show ?thesis
    by (auto simp: request_def reported_errors_def)
qed

theorem request_4xx_fails_at_once_witness:
  \<open>net_rejects (sent state0) stats_request
     = (Response 404 ''{"errors": ["player not found"]}''
          (Inr (JObj [(''errors'', JArr [JStr ''player not found''])])), 0)
   \<and> fst (request client0 net_rejects GET ''/bf6/stats/''
            (Some [(''platform'', ''pc''), (''name'', ''foo'')]) None state0)
       = Inl (BF6APIError (API_error 404 (JArr [JStr ''player not found''])))
   \<and> sent (snd (request client0 net_rejects GET ''/bf6/stats/''
            (Some [(''platform'', ''pc''), (''name'', ''foo'')]) None state0)) = 1\<close>
proof -
  have h: \<open>net_rejects (sent state0) stats_request
     = (Response 404 ''{"errors": ["player not found"]}''
          (Inr (JObj [(''errors'', JArr [JStr ''player not found''])])), 0)\<close>
    by (simp add: net_rejects_def)
  have s: "sent state0 = 0" by (simp add: state0_def)
  have m: "0 < max_retries client0" by (simp add: client0_def)
  show ?thesis
    using h s m
      request_4xx_fails_at_once [where net = net_rejects and st = state0 and rq = stats_request
        and c = client0 and attempt = 0 and rest = "[1..<max_retries client0]" and m = GET
        and path = "''/bf6/stats/''" and body = None
        and params = "Some [(''platform'', ''pc''), (''name'', ''foo'')]", OF h]
    by (simp add: stats_request_def reported_errors_def)
qed

text \<open>A call whose first answer is a status below 400 with a body that parses.\<close>

lemma request_ok:
  assumes "0 < max_retries c"
    and "fst (net (sent st) (http_call c m path params body)) = Response status btext (Inr v)"
    and "status < 400"
  shows "request c net m path params body st =
         (Inr v, attempt_state c net (http_call c m path params body) st)"
proof -
  have "[0..<max_retries c] = 0 # [1..<max_retries c]"
    using assms(1) by (simp add: upt_rec)
  then show ?thesis
    using assms(2,3)
    by (auto simp: request_def request_attempts.simps(2) attempt_state_def http_send_def
        split: prod.splits)
qed

section \<open>The batch call of the client\<close>

text \<open>
  C9. With no player ids \<open>get_stats_batch\<close> returns the empty list and leaves the
  state as it was: no request is sent, the rate limiter is not consulted, nothing is raised.
\<close>

theorem get_stats_batch_empty:
  "get_stats_batch c net repr [] plat st = (Inr (JArr []), st)"
  by (simp add: get_stats_batch_def)

text \<open>
  C4. With more than 128 ids \<open>get_stats_batch\<close> raises a \<open>ValueError\<close> and the
  state is untouched. With 1 to 128 ids it makes one call through \<open>_request\<close>, a POST
  to \<open>/bf6/multiple/\<close>; an error of that call is passed on. An answer that is a list
  is returned as it is. An answer that is an object with a \<open>result\<close> key is replaced
  by the value under that key, whatever it is: the list when it is a list, and a number or
  \<open>None\<close> just the same. An object without that key is wrapped in a one-element list,
  and any other answer gives the empty list.
\<close>

theorem get_stats_batch_contract:
  "(length ids > 128 \<longrightarrow>
      get_stats_batch c net repr ids plat st
        = (Inl (ValueError ''Maximum 128 players per batch''), st))
   \<and> (ids \<noteq> [] \<and> length ids \<le> 128 \<longrightarrow>
        (\<forall>e st'. request c net POST ''/bf6/multiple/'' None (Some (batch_body repr ids plat)) st
                    = (Inl e, st')
           \<longrightarrow> get_stats_batch c net repr ids plat st = (Inl e, st'))
      \<and> (\<forall>data st'. request c net POST ''/bf6/multiple/'' None (Some (batch_body repr ids plat)) st
                    = (Inr data, st')
           \<longrightarrow> snd (get_stats_batch c net repr ids plat st) = st'
             \<and> (\<forall>xs. data = JArr xs
                    \<longrightarrow> fst (get_stats_batch c net repr ids plat st) = Inr (JArr xs))
             \<and> (\<forall>d r. data = JObj d \<and> map_of d ''result'' = Some r
                    \<longrightarrow> fst (get_stats_batch c net repr ids plat st) = Inr r)
             \<and> (\<forall>d xs. data = JObj d \<and> map_of d ''result'' = Some (JArr xs)
                    \<longrightarrow> fst (get_stats_batch c net repr ids plat st) = Inr (JArr xs))
             \<and> (\<forall>d. data = JObj d \<and> map_of d ''result'' = None
                    \<longrightarrow> fst (get_stats_batch c net repr ids plat st) = Inr (JArr [JObj d]))
             \<and> ((\<forall>xs. data \<noteq> JArr xs) \<and> (\<forall>d. data \<noteq> JObj d)
                    \<longrightarrow> fst (get_stats_batch c net repr ids plat st) = Inr (JArr []))))"
  by (auto simp: get_stats_batch_def split: json.splits option.splits)

theorem get_stats_batch_contract_witness:
  "length (replicate 129 (JStr ''7'')) > 128
   \<and> get_stats_batch client0 (net_answers JNull) repr0 (replicate 129 (JStr ''7'')) ''pc'' state0
       = (Inl (ValueError ''Maximum 128 players per batch''), state0)
   \<and> [JStr ''7''] \<noteq> [] \<and> length [JStr ''7''] \<le> 128
   \<and> fst (request client0 (net_answers (JObj [(''result'', JArr [JObj [(''id'', JInt 7)]])])) POST
         ''/bf6/multiple/'' None (Some (batch_body repr0 [JStr ''7''] ''pc'')) state0)
       = Inr (JObj [(''result'', JArr [JObj [(''id'', JInt 7)]])])
   \<and> fst (get_stats_batch client0 (net_answers (JObj [(''result'', JArr [JObj [(''id'', JInt 7)]])]))
            repr0 [JStr ''7''] ''pc'' state0)
       = Inr (JArr [JObj [(''id'', JInt 7)]])
   \<and> fst (request client0 (net_answers (JObj [(''id'', JInt 7)])) POST
         ''/bf6/multiple/'' None (Some (batch_body repr0 [JStr ''7''] ''pc'')) state0)
       = Inr (JObj [(''id'', JInt 7)])
   \<and> fst (get_stats_batch client0 (net_answers (JObj [(''id'', JInt 7)]))
            repr0 [JStr ''7''] ''pc'' state0)
       = Inr (JArr [JObj [(''id'', JInt 7)]])
   \<and> fst (request client0 (net_answers (JStr ''ok'')) POST
         ''/bf6/multiple/'' None (Some (batch_body repr0 [JStr ''7''] ''pc'')) state0)
       = Inr (JStr ''ok'')
   \<and> fst (get_stats_batch client0 (net_answers (JStr ''ok''))
            repr0 [JStr ''7''] ''pc'' state0)
       = Inr (JArr [])"
proof -
  let ?ans = "JObj [(''result'', JArr [JObj [(''id'', JInt 7)]])]"
  let ?lone = "JObj [(''id'', JInt 7)]"
  let ?rq = "http_call client0 POST ''/bf6/multiple/'' None
               (Some (batch_body repr0 [JStr ''7''] ''pc''))"
  have big: "length (replicate 129 (JStr ''7'')) > 128" by simp
  have small: "[JStr ''7''] \<noteq> [] \<and> length [JStr ''7''] \<le> 128" by simp
  have mr: "0 < max_retries client0" by (simp add: client0_def)
  have rq: "\<And>v. request client0 (net_answers v) POST ''/bf6/multiple/'' None
                   (Some (batch_body repr0 [JStr ''7''] ''pc'')) state0
                 = (Inr v, attempt_state client0 (net_answers v) ?rq state0)"
    by (rule request_ok [where status = "200" and btext = "[]", OF mr])
      (simp_all add: net_answers_def)
  have a: "get_stats_batch client0 (net_answers JNull) repr0 (replicate 129 (JStr ''7'')) ''pc'' state0
             = (Inl (ValueError ''Maximum 128 players per batch''), state0)"
    using big
      get_stats_batch_contract [of "replicate 129 (JStr ''7'')" client0 "net_answers JNull"
        repr0 "''pc''" state0]
    by blast
  have b: "fst (get_stats_batch client0 (net_answers ?ans) repr0 [JStr ''7''] ''pc'' state0)
             = Inr (JArr [JObj [(''id'', JInt 7)]])"
    using small rq [of ?ans]
      get_stats_batch_contract [of "[JStr ''7'']" client0 "net_answers ?ans" repr0 "''pc''" state0]
    by simp
  have c: "fst (get_stats_batch client0 (net_answers ?lone) repr0 [JStr ''7''] ''pc'' state0)
             = Inr (JArr [?lone])"
    using small rq [of ?lone]
      get_stats_batch_contract [of "[JStr ''7'']" client0 "net_answers ?lone" repr0 "''pc''" state0]
    by simp
  have d: "fst (get_stats_batch client0 (net_answers (JStr ''ok'')) repr0 [JStr ''7''] ''pc'' state0)
             = Inr (JArr [])"
    using small rq [of "JStr ''ok''"]
      get_stats_batch_contract [of "[JStr ''7'']" client0 "net_answers (JStr ''ok'')" repr0
        "''pc''" state0]
    by simp
  show ?thesis
    using big small a b c d by (simp add: rq)
qed

theorem get_stats_batch_result_not_list:
  "fst (get_stats_batch client0 (net_answers (JObj [(''result'', JInt 5)])) repr0 [JStr ''7''] ''pc''
          state0)
     = Inr (JInt 5)
   \<and> fst (get_stats_batch client0 (net_answers (JObj [(''result'', JInt 5)])) repr0 [JStr ''7''] ''pc''
          state0)
     \<noteq> Inr (JArr [JObj [(''result'', JInt 5)]])
   \<and> fst (get_stats_batch client0 (net_answers (JObj [(''result'', JInt 5)])) repr0 [JStr ''7''] ''pc''
          state0)
     \<noteq> Inr (JArr [])"
proof -
  have mr: "0 < max_retries client0" by (simp add: client0_def)
  have "request client0 (net_answers (JObj [(''result'', JInt 5)])) POST ''/bf6/multiple/'' None
          (Some (batch_body repr0 [JStr ''7''] ''pc'')) state0
        = (Inr (JObj [(''result'', JInt 5)]),
           attempt_state client0 (net_answers (JObj [(''result'', JInt 5)]))
             (http_call client0 POST ''/bf6/multiple/'' None
                (Some (batch_body repr0 [JStr ''7''] ''pc''))) state0)"
    by (rule request_ok [where status = "200" and btext = "[]", OF mr])
      (simp_all add: net_answers_def)
  then have "fst (get_stats_batch client0 (net_answers (JObj [(''result'', JInt 5)])) repr0
                    [JStr ''7''] ''pc'' state0) = Inr (JInt 5)"
    by (simp add: get_stats_batch_def)
  then show ?thesis by simp
qed

section \<open>The config loader\<close>

lemma player_entries_valid:
  assumes "\<forall>p\<in>set ps. entry_descriptor repr p \<noteq> None"
  shows "\<exists>ds. player_entries repr ps out = Inr (out @ ds)
              \<and> map Some ds = map (entry_descriptor repr) ps"
  using assms
proof (induction ps arbitrary: out)
  case Nil
  then show ?case by simp
next
  case (Cons p ps)
  from Cons.prems obtain d n where p: "p = JObj d" and n: "map_of d ''name'' = Some n"
    by (auto simp: entry_descriptor_def split: json.splits option.splits)
  let ?x = "\<lparr>name = py_str repr n,
             platform = py_str repr (case map_of d ''platform'' of Some v \<Rightarrow> v | None \<Rightarrow> JStr ''pc'')\<rparr>"
  have x: "entry_descriptor repr p = Some ?x"
    by (simp add: p n entry_descriptor_def py_str_def split: option.splits)
  from Cons.prems have "\<forall>q\<in>set ps. entry_descriptor repr q \<noteq> None" by simp
  from Cons.IH [OF this, of "out @ [?x]"] obtain ds
    where ds: "player_entries repr ps (out @ [?x]) = Inr ((out @ [?x]) @ ds)"
      and m: "map Some ds = map (entry_descriptor repr) ps"
    by blast
  have "player_entries repr (p # ps) out = Inr (out @ (?x # ds))"
    using ds by (simp add: p n)
  moreover have "map Some (?x # ds) = map (entry_descriptor repr) (p # ps)"
    using m x by simp
  ultimately show ?case by blast
qed

lemma player_entries_invalid:
  assumes "\<exists>p\<in>set ps. entry_descriptor repr p = None"
  shows "\<exists>msg. player_entries repr ps out = Inl (ValueError msg)"
  using assms
proof (induction ps arbitrary: out)
  case Nil
  then show ?case by simp
next
  case (Cons p ps)
  show ?case
  proof (cases "entry_descriptor repr p")
    case None
    then show ?thesis
      by (auto simp: entry_descriptor_def split: json.splits option.splits)
  next
    case (Some x)
    with Cons.prems have "\<exists>q\<in>set ps. entry_descriptor repr q = None" by auto
    from Cons.IH [OF this] show ?thesis
      using Some by (auto simp: entry_descriptor_def split: json.splits option.splits)
  qed
qed

lemma holds_players_of:
  "holds_players data entries \<Longrightarrow> players_of data = JArr entries"
  by (auto simp: holds_players_def players_of_def split: json.splits)

lemma no_players_of:
  "\<forall>entries. \<not> holds_players data entries \<Longrightarrow> \<forall>entries. players_of data \<noteq> JArr entries"
  by (auto simp: holds_players_def players_of_def split: json.splits option.splits)

text \<open>
  C6. When the file parses to a document that is a list of entries, or an object whose
  \<open>players\<close> key holds one, and every entry is valid, \<open>load_config\<close> returns one
  descriptor per entry, in the order of the entries, the platform being \<open>pc\<close> where the
  entry gives none. When some entry is not an object with a \<open>name\<close>, or the document
  has neither shape, it raises a \<open>ValueError\<close>; when the file does not exist it
  raises \<open>FileNotFoundError\<close> instead.
\<close>

theorem load_config_contract:
  "(read_text env path = None \<longrightarrow>
      load_config env path = Inl (FileNotFoundError (''Config not found: '' @ path)))
   \<and> (\<forall>data. config_document env path = Inr data \<longrightarrow>
        (\<forall>entries. holds_players data entries \<longrightarrow>
            ((\<forall>p\<in>set entries. entry_descriptor (py_repr env) p \<noteq> None) \<longrightarrow>
               (\<exists>ds. load_config env path = Inr ds
                     \<and> length ds = length entries
                     \<and> map Some ds = map (entry_descriptor (py_repr env)) entries))
          \<and> ((\<exists>p\<in>set entries. entry_descriptor (py_repr env) p = None) \<longrightarrow>
               (\<exists>msg. load_config env path = Inl (ValueError msg))))
      \<and> ((\<forall>entries. \<not> holds_players data entries) \<longrightarrow>
            load_config env path = Inl (ValueError ''Config must contain a 'players' list'')))"
proof (intro conjI allI impI)
  assume "read_text env path = None"
  then show "load_config env path = Inl (FileNotFoundError (''Config not found: '' @ path))"
    by (simp add: load_config_def config_document_def)
next
  fix data entries
  assume doc: "config_document env path = Inr data"
    and hp: "holds_players data entries"
    and ok: "\<forall>p\<in>set entries. entry_descriptor (py_repr env) p \<noteq> None"
  from player_entries_valid [OF ok, of "[]"] obtain ds
    where "player_entries (py_repr env) entries [] = Inr ds"
      and m: "map Some ds = map (entry_descriptor (py_repr env)) entries"
    by auto
  then have "load_config env path = Inr ds"
    by (simp add: load_config_def doc config_players_def holds_players_of [OF hp])
  moreover have "length ds = length entries"
    using m by (metis length_map)
  ultimately show "\<exists>ds. load_config env path = Inr ds \<and> length ds = length entries
                     \<and> map Some ds = map (entry_descriptor (py_repr env)) entries"
    using m by blast
next
  fix data entries
  assume doc: "config_document env path = Inr data"
    and hp: "holds_players data entries"
    and bad: "\<exists>p\<in>set entries. entry_descriptor (py_repr env) p = None"
  from player_entries_invalid [OF bad, of "[]"]
  show "\<exists>msg. load_config env path = Inl (ValueError msg)"
    by (simp add: load_config_def doc config_players_def holds_players_of [OF hp])
next
  fix data
  assume doc: "config_document env path = Inr data"
    and none: "\<forall>entries. \<not> holds_players data entries"
  from no_players_of [OF none]
  show "load_config env path = Inl (ValueError ''Config must contain a 'players' list'')"
    by (auto simp: load_config_def doc config_players_def split: json.splits)
qed

theorem load_config_contract_witness:
  "config_document config_env0 ''players.json'' = Inr config_doc0
   \<and> holds_players config_doc0
        [JObj [(''name'', JStr ''foo'')],
         JObj [(''name'', JStr ''bar''), (''platform'', JStr ''psn'')]]
   \<and> load_config config_env0 ''players.json''
       = Inr [\<lparr>name = ''foo'', platform = ''pc''\<rparr>, \<lparr>name = ''bar'', platform = ''psn''\<rparr>]
   \<and> read_text config_env0 ''absent.json'' = None
   \<and> load_config config_env0 ''absent.json''
       = Inl (FileNotFoundError ''Config not found: absent.json'')"
proof -
  let ?entries = "[JObj [(''name'', JStr ''foo'')],
                   JObj [(''name'', JStr ''bar''), (''platform'', JStr ''psn'')]]"
  have doc: "config_document config_env0 ''players.json'' = Inr config_doc0"
    by (simp add: config_document_def config_env0_def)
  have hp: "holds_players config_doc0 ?entries"
    by (simp add: holds_players_def config_doc0_def)
  have e1: "entry_descriptor (py_repr config_env0) (JObj [(''name'', JStr ''foo'')])
            = Some \<lparr>name = ''foo'', platform = ''pc''\<rparr>"
    by (simp add: entry_descriptor_def py_str_def)
  have e2: "entry_descriptor (py_repr config_env0)
              (JObj [(''name'', JStr ''bar''), (''platform'', JStr ''psn'')])
            = Some \<lparr>name = ''bar'', platform = ''psn''\<rparr>"
    by (simp add: entry_descriptor_def py_str_def)
  have ok: "\<forall>p\<in>set ?entries. entry_descriptor (py_repr config_env0) p \<noteq> None"
    using e1 e2 by simp
  have absent: "read_text config_env0 ''absent.json'' = None"
    by (simp add: config_env0_def)
  from load_config_contract [of config_env0 "''players.json''"] doc hp ok
  obtain ds where ds: "load_config config_env0 ''players.json'' = Inr ds"
    and m: "map Some ds = map (entry_descriptor (py_repr config_env0)) ?entries"
    by blast
  from m have "ds = [\<lparr>name = ''foo'', platform = ''pc''\<rparr>, \<lparr>name = ''bar'', platform = ''psn''\<rparr>]"
    using e1 e2 by (cases ds) auto
  moreover from load_config_contract [of config_env0 "''absent.json''"] absent
  have "load_config config_env0 ''absent.json''
          = Inl (FileNotFoundError (''Config not found: '' @ ''absent.json''))"
    by blast
  ultimately show ?thesis
    using doc hp ds absent by simp
qed

section \<open>Flattening a record\<close>

lemma distinct_SUMMARY_KEYS: "distinct SUMMARY_KEYS"
  by (simp add: SUMMARY_KEYS_def)

lemma fetched_at_not_summary_key: "''fetched_at'' \<notin> set SUMMARY_KEYS"
  by (simp add: SUMMARY_KEYS_def)

lemma run_id_not_summary_key: "''run_id'' \<notin> set SUMMARY_KEYS"
  by (simp add: SUMMARY_KEYS_def)

lemma keys_copy_keys:
  assumes "distinct ks" and "set ks \<inter> fst ` set out = {}"
  shows "map fst (copy_keys ks stats out) = map fst out @ filter (\<lambda>k. map_of stats k \<noteq> None) ks"
  using assms
proof (induction ks arbitrary: out)
  case Nil
  then show ?case by simp
next
  case (Cons k ks)
  show ?case
  proof (cases "map_of stats k")
    case None
    then show ?thesis using Cons by auto
  next
    case (Some v)
    have fresh: "k \<notin> fst ` set out" using Cons.prems by auto
    have "set ks \<inter> fst ` set (AList.update k v out) = {}"
      using Cons.prems by (auto simp: dom_update)
    moreover have "distinct ks" using Cons.prems by simp
    ultimately have "map fst (copy_keys ks stats (AList.update k v out))
                     = map fst (AList.update k v out) @ filter (\<lambda>k. map_of stats k \<noteq> None) ks"
      by (rule Cons.IH [rotated])
    then show ?thesis
      using Some fresh by (simp add: update_keys)
  qed
qed

lemma map_of_copy_keys:
  "map_of (copy_keys ks stats out) k =
     (if k \<in> set ks \<and> map_of stats k \<noteq> None then map_of stats k else map_of out k)"
proof (induction ks arbitrary: out)
  case Nil
  then show ?case by simp
next
  case (Cons a ks)
  then show ?case
    by (cases "map_of stats a") (auto simp: update_conv')
qed

lemma keys_summary_at: "map fst (summary_at clock i stats) = summary_keys stats"
  using keys_copy_keys [of SUMMARY_KEYS "[(''fetched_at'', JStr (utc_stamp (clock i)))]" stats]
  by (simp add: summary_at_def summary_keys_def distinct_SUMMARY_KEYS fetched_at_not_summary_key)

lemma map_of_summary_at:
  "map_of (summary_at clock i stats) k =
     (if k = ''fetched_at'' then Some (JStr (utc_stamp (clock i)))
      else if k \<in> set SUMMARY_KEYS then map_of stats k else None)"
  using fetched_at_not_summary_key
  by (auto simp: summary_at_def map_of_copy_keys)

lemma flatten_summary_eq:
  "flatten_summary clock stats d = (summary_at clock (tick d) stats, d\<lparr>tick := Suc (tick d)\<rparr>)"
  by (simp add: flatten_summary_def utc_now_def summary_at_def)

lemma flatten_all_eq:
  "flatten_all clock rs d =
     (map (\<lambda>(i, r). summary_at clock i r) (enumerate (tick d) rs),
      d\<lparr>tick := tick d + length rs\<rparr>)"
proof (induction rs arbitrary: d)
  case Nil
  then show ?case by simp
next
  case (Cons r rs)
  show ?case
    by (simp add: flatten_summary_eq Cons.IH)
qed

section \<open>The header of the CSV file\<close>

lemma set_first_seen [simp]: "set (first_seen xs) = set xs"
  by (simp add: first_seen_def)

lemma distinct_first_seen [simp]: "distinct (first_seen xs)"
  by (simp add: first_seen_def)

lemma first_seen_snoc:
  "first_seen (xs @ [k]) = (if k \<in> set xs then first_seen xs else first_seen xs @ [k])"
  by (simp add: first_seen_def)

lemma first_seen_distinct: "distinct xs \<Longrightarrow> first_seen xs = xs"
  by (simp add: first_seen_def distinct_remdups_id)

lemma remdups_append_filter:
  "remdups (xs @ ys) = remdups (filter (\<lambda>x. x \<notin> set ys) xs) @ remdups ys"
  by (induction xs) auto

lemma first_seen_append:
  "first_seen (xs @ ys) = first_seen xs @ first_seen (filter (\<lambda>k. k \<notin> set xs) ys)"
  using remdups_append_filter [of "rev ys" "rev xs"]
  by (simp add: first_seen_def rev_filter)

lemma append_new_keys_first_seen:
  "append_new_keys (first_seen pre) ks = first_seen (pre @ ks)"
proof (induction ks arbitrary: pre)
  case Nil
  then show ?case by simp
next
  case (Cons k ks)
  have "append_new_keys (first_seen pre) (k # ks) = append_new_keys (first_seen (pre @ [k])) ks"
    by (simp add: first_seen_snoc)
  also have "\<dots> = first_seen ((pre @ [k]) @ ks)" by (rule Cons.IH)
  finally show ?case by simp
qed

lemma collect_keys_first_seen:
  "collect_keys (first_seen pre) ss = first_seen (pre @ concat (map (map fst) ss))"
proof (induction ss arbitrary: pre)
  case Nil
  then show ?case by simp
next
  case (Cons s ss)
  show ?case
    using Cons.IH [of "pre @ map fst s"] by (simp add: append_new_keys_first_seen)
qed

lemma distinct_summary_keys: "distinct (summary_keys stats)"
  using fetched_at_not_summary_key distinct_SUMMARY_KEYS
  by (auto simp: summary_keys_def)

lemma all_summary_keys_eq:
  assumes "map (map fst) summaries = map summary_keys (r # rs)"
  shows "all_summary_keys summaries = Inr (first_seen (concat (map summary_keys (r # rs))))"
proof -
  from assms obtain s ss where ss: "summaries = s # ss"
    and s: "map fst s = summary_keys r" and rest: "map (map fst) ss = map summary_keys rs"
    by (cases summaries) auto
  have "collect_keys (map fst s) ss = collect_keys (first_seen (summary_keys r)) ss"
    by (simp add: s first_seen_distinct distinct_summary_keys)
  also have "\<dots> = first_seen (summary_keys r @ concat (map (map fst) ss))"
    by (rule collect_keys_first_seen)
  finally show ?thesis
    by (simp add: all_summary_keys_def ss rest)
qed

lemma keys_flattened:
  "map (map fst) (map (\<lambda>(i, r). summary_at clock i r) (enumerate n rs)) = map summary_keys rs"
  by (induction rs arbitrary: n) (simp_all add: keys_summary_at)

lemma csv_row_summary_at:
  assumes "set header \<subseteq> insert ''fetched_at'' (set SUMMARY_KEYS)"
  shows "csv_row header (summary_at clock i r) =
         map (\<lambda>k. if k = ''fetched_at'' then JStr (utc_stamp (clock i))
                   else (case map_of r k of Some v \<Rightarrow> v | None \<Rightarrow> JStr [])) header"
  using assms by (auto simp: csv_row_def map_of_summary_at)

lemma summary_keys_subset: "set (summary_keys r) \<subseteq> insert ''fetched_at'' (set SUMMARY_KEYS)"
  by (auto simp: summary_keys_def)

text \<open>
  C7. \<open>save_csv\<close> raises a \<open>ValueError\<close> on the empty list and writes nothing. For
  the records \<open>r # rs\<close> it writes one file whose header holds every key of every
  summary once, in the order of first occurrence: the keys of the first summary
  (\<open>fetched_at\<close>, then the allow-listed keys of \<open>r\<close> in allow-list order), then the
  keys that later records bring in. The file has one row per record, in order; a cell is
  the record's value for the column, the timestamp of its summary under \<open>fetched_at\<close>,
  and the empty string where the record has no value.
\<close>

theorem save_csv_contract:
  "save_csv clock [] output_dir run_id d = (Inl (ValueError ''No results to write to CSV''), d)
   \<and> (\<exists>fname d' doc.
         save_csv clock (r # rs) output_dir run_id d = (Inr (path_join output_dir fname), d')
       \<and> csv_files d' (path_join output_dir fname) = Some doc
       \<and> csv_header doc = first_seen (concat (map summary_keys (r # rs)))
       \<and> csv_header doc
           = summary_keys r
             @ first_seen (filter (\<lambda>k. k \<notin> set (summary_keys r)) (concat (map summary_keys rs)))
       \<and> length (csv_rows doc) = length (r # rs)
       \<and> csv_rows doc
           = map (\<lambda>(i, x). map (\<lambda>k. if k = ''fetched_at'' then JStr (utc_stamp (clock i))
                                     else (case map_of x k of Some v \<Rightarrow> v | None \<Rightarrow> JStr []))
                               (csv_header doc))
               (enumerate (tick d) (r # rs)))"
proof
  show "save_csv clock [] output_dir run_id d = (Inl (ValueError ''No results to write to CSV''), d)"
    by (simp add: save_csv_def)
next
  define summaries where
    "summaries = map (\<lambda>(i, x). summary_at clock i x) (enumerate (tick d) (r # rs))"
  define header where "header = first_seen (concat (map summary_keys (r # rs)))"
  define cell where
    "cell = (\<lambda>i x k. if k = ''fetched_at'' then JStr (utc_stamp (clock i))
                     else (case map_of x k of Some v \<Rightarrow> v | None \<Rightarrow> JStr []))"
  let ?d1 = "d\<lparr>tick := tick d + length (r # rs)\<rparr>"
  let ?d2 = "?d1\<lparr>dirs := insert output_dir (dirs ?d1)\<rparr>"
  obtain fname d3 where fn: "stats_filename clock run_id ''csv'' ?d2 = (fname, d3)"
    by (cases "stats_filename clock run_id ''csv'' ?d2") auto
  have keys: "all_summary_keys summaries = Inr header"
    unfolding summaries_def header_def
    by (rule all_summary_keys_eq) (rule keys_flattened)
  let ?doc = "\<lparr>csv_header = header, csv_rows = map (csv_row header) summaries\<rparr>"
  let ?d' = "d3\<lparr>csv_files := (csv_files d3)(path_join output_dir fname \<mapsto> ?doc)\<rparr>"
  have fl: "flatten_all clock (r # rs) d = (summaries, ?d1)"
    unfolding summaries_def by (rule flatten_all_eq)
  have run: "save_csv clock (r # rs) output_dir run_id d = (Inr (path_join output_dir fname), ?d')"
    unfolding save_csv_def fl ensure_output_dir_def
    using fn keys by simp
  have sub: "set header \<subseteq> insert ''fetched_at'' (set SUMMARY_KEYS)"
    unfolding header_def using summary_keys_subset by auto
  have rows: "map (csv_row header) summaries
              = map (\<lambda>(i, x). map (cell i x) header) (enumerate (tick d) (r # rs))"
    unfolding summaries_def cell_def
    by (simp add: csv_row_summary_at [OF sub] case_prod_beta del: enumerate_simps)
  have split: "header = summary_keys r
             @ first_seen (filter (\<lambda>k. k \<notin> set (summary_keys r)) (concat (map summary_keys rs)))"
    unfolding header_def
    using first_seen_append [of "summary_keys r" "concat (map summary_keys rs)"]
    by (simp add: first_seen_distinct distinct_summary_keys)
  have "csv_files ?d' (path_join output_dir fname) = Some ?doc" by simp
  moreover have "csv_header ?doc = header" by simp
  moreover have "length (csv_rows ?doc) = length (r # rs)"
    by (simp add: summaries_def)
  moreover have "csv_rows ?doc
           = map (\<lambda>(i, x). map (cell i x) (csv_header ?doc)) (enumerate (tick d) (r # rs))"
    using rows by simp
  ultimately have "\<exists>fname d' doc.
         save_csv clock (r # rs) output_dir run_id d = (Inr (path_join output_dir fname), d')
       \<and> csv_files d' (path_join output_dir fname) = Some doc
       \<and> csv_header doc = header
       \<and> csv_header doc
           = summary_keys r
             @ first_seen (filter (\<lambda>k. k \<notin> set (summary_keys r)) (concat (map summary_keys rs)))
       \<and> length (csv_rows doc) = length (r # rs)
       \<and> csv_rows doc
           = map (\<lambda>(i, x). map (cell i x) (csv_header doc)) (enumerate (tick d) (r # rs))"
    using run split by blast
  then show "\<exists>fname d' doc.
         save_csv clock (r # rs) output_dir run_id d = (Inr (path_join output_dir fname), d')
       \<and> csv_files d' (path_join output_dir fname) = Some doc
       \<and> csv_header doc = first_seen (concat (map summary_keys (r # rs)))
       \<and> csv_header doc
           = summary_keys r
             @ first_seen (filter (\<lambda>k. k \<notin> set (summary_keys r)) (concat (map summary_keys rs)))
       \<and> length (csv_rows doc) = length (r # rs)
       \<and> csv_rows doc
           = map (\<lambda>(i, x). map (\<lambda>k. if k = ''fetched_at'' then JStr (utc_stamp (clock i))
                                     else (case map_of x k of Some v \<Rightarrow> v | None \<Rightarrow> JStr []))
                               (csv_header doc))
               (enumerate (tick d) (r # rs))"
    unfolding header_def cell_def .
qed


theorem save_csv_contract_witness:
  "(\<exists>d' doc.
      save_csv clock0 [stats_foo] ''out'' (Some ''r1'') disk0 = (Inr ''out/stats_r1.csv'', d')
    \<and> csv_files d' ''out/stats_r1.csv'' = Some doc
    \<and> csv_header doc = [''fetched_at'', ''userName'', ''id'', ''kills'']
    \<and> csv_rows doc = [[JStr (utc_stamp (clock0 0)), JStr ''foo'', JInt 1, JInt 10]])"
proof -
  have keys: "summary_keys stats_foo = [''fetched_at'', ''userName'', ''id'', ''kills'']"
    by (simp add: summary_keys_def stats_foo_def SUMMARY_KEYS_def)
  from save_csv_contract [of clock0 "''out''" "Some ''r1''" disk0 stats_foo "[]"]
  obtain fname d' doc where
    run: "save_csv clock0 [stats_foo] ''out'' (Some ''r1'') disk0 = (Inr (path_join ''out'' fname), d')"
    and doc: "csv_files d' (path_join ''out'' fname) = Some doc"
    and hd: "csv_header doc = first_seen (concat (map summary_keys [stats_foo]))"
    and rows: "csv_rows doc
           = map (\<lambda>(i, x). map (\<lambda>k. if k = ''fetched_at'' then JStr (utc_stamp (clock0 i))
                                     else (case map_of x k of Some v \<Rightarrow> v | None \<Rightarrow> JStr []))
                               (csv_header doc))
               (enumerate (tick disk0) [stats_foo])"
    by blast
  have path: "path_join ''out'' fname = ''out/stats_r1.csv''"
    using run
    by (simp add: save_csv_def stats_filename_def ensure_output_dir_def path_join_def
        split: prod.splits sum.splits)
  have header: "csv_header doc = [''fetched_at'', ''userName'', ''id'', ''kills'']"
    using hd by (simp add: keys first_seen_def)
  have "csv_rows doc = [[JStr (utc_stamp (clock0 0)), JStr ''foo'', JInt 1, JInt 10]]"
    unfolding rows header by (simp add: disk0_def stats_foo_def)
  then show ?thesis
    using run doc header path by auto
qed

section \<open>The rows of the database\<close>

lemma fetched_at_run_id: "''fetched_at'' \<noteq> ''run_id''"
  by simp

lemma map_of_stamped:
  "map_of (AList.update ''fetched_at'' (JStr f)
            (AList.update ''run_id'' (JStr rid) (summary_at clock i r))) c
   = (if c = ''fetched_at'' then Some (JStr f)
      else if c = ''run_id'' then Some (JStr rid)
      else if c \<in> set SUMMARY_KEYS then map_of r c else None)"
  by (simp add: update_conv' map_of_summary_at)

lemma sqlite_row_stamped:
  "sqlite_row (AList.update ''fetched_at'' (JStr f)
                 (AList.update ''run_id'' (JStr rid) (summary_at clock i r)))
   = stored_row rid f r"
proof -
  have "map (\<lambda>c. (c, case map_of (AList.update ''fetched_at'' (JStr f)
                              (AList.update ''run_id'' (JStr rid) (summary_at clock i r))) c of
                      Some v \<Rightarrow> v | None \<Rightarrow> JNull)) SUMMARY_KEYS
        = map (\<lambda>c. (c, case map_of r c of Some v \<Rightarrow> v | None \<Rightarrow> JNull)) SUMMARY_KEYS"
    using fetched_at_not_summary_key run_id_not_summary_key
    by (intro map_cong refl) (auto simp: map_of_stamped)
  then show ?thesis
    by (simp add: sqlite_row_def SQLITE_COLUMNS_def stored_row_def map_of_stamped)
qed

lemma stored_row_bindable:
  "list_all (\<lambda>cv. sqlite_bindable (snd cv)) (stored_row rid f r) = storable r"
  by (simp add: stored_row_def storable_def sqlite_bindable_def list_all_iff
      split: option.splits)

lemma map_of_stored_row:
  "map_of (stored_row rid f r) ''run_id'' = Some (JStr rid)"
  "map_of (stored_row rid f r) ''fetched_at'' = Some (JStr f)"
  by (simp_all add: stored_row_def)

lemma insert_rows_storable:
  assumes "list_all storable rs"
  shows "insert_rows clock rid f rs pending d =
         (Inr (pending @ map (stored_row rid f) rs), d\<lparr>tick := tick d + length rs\<rparr>)"
  using assms
proof (induction rs arbitrary: pending d)
  case Nil
  then show ?case by simp
next
  case (Cons r rs)
  then have r: "storable r" and rs: "list_all storable rs" by simp_all
  show ?case
    by (simp add: flatten_summary_eq sqlite_row_stamped stored_row_bindable r Cons.IH [OF rs])
qed

lemma insert_rows_tables:
  "stats_tables (snd (insert_rows clock rid f rs pending d)) = stats_tables d"
proof (induction rs arbitrary: pending d)
  case Nil
  then show ?case by simp
next
  case (Cons r rs)
  show ?case
    by (simp add: flatten_summary_eq Let_def Cons.IH)
qed

lemma insert_rows_result:
  "(\<exists>e. fst (insert_rows clock rid f rs pending d) = Inl e)
   \<or> fst (insert_rows clock rid f rs pending d) = Inr (pending @ map (stored_row rid f) rs)"
proof (induction rs arbitrary: pending d)
  case Nil
  then show ?case by simp
next
  case (Cons r rs)
  show ?case
    using Cons.IH [of "pending @ [stored_row rid f r]" "d\<lparr>tick := Suc (tick d)\<rparr>"]
    by (simp add: flatten_summary_eq sqlite_row_stamped Let_def)
qed

text \<open>What one call of \<open>save_sqlite\<close> on a non-empty list leaves in the table.\<close>

lemma save_sqlite_rows:
  assumes "results \<noteq> []"
  shows "\<exists>new. table_rows (snd (save_sqlite clock results output_dir db_name run_id d))
                  (path_join output_dir db_name)
               = table_rows d (path_join output_dir db_name) @ new
             \<and> (new = [] \<or> new = map (stored_row (run_id_of run_id (clock (tick d)))
                                        (utc_stamp (clock (tick d)))) results)"
proof -
  let ?path = "path_join output_dir db_name"
  let ?rid = "run_id_of run_id (clock (tick d))"
  let ?f = "utc_stamp (clock (tick d))"
  let ?d2 = "d\<lparr>dirs := insert output_dir (dirs d), tick := Suc (tick d)\<rparr>"
  let ?d3 = "?d2\<lparr>stats_tables := (stats_tables ?d2)(?path \<mapsto> table_rows d ?path)\<rparr>"
  obtain res d4 where ins: "insert_rows clock ?rid ?f results [] ?d3 = (res, d4)"
    by (cases "insert_rows clock ?rid ?f results [] ?d3") auto
  have tab: "stats_tables d4 = stats_tables ?d3"
    using insert_rows_tables [of clock ?rid ?f results "[]" ?d3] ins by simp
  have unf: "save_sqlite clock results output_dir db_name run_id d =
             (case res of
                Inl e \<Rightarrow> (Inl e, d4)
              | Inr pending \<Rightarrow>
                  (Inr ?path,
                   d4\<lparr>stats_tables := (stats_tables d4)(?path \<mapsto> table_rows d ?path @ pending)\<rparr>))"
    using assms ins
    by (cases res)
      (simp_all add: save_sqlite_def ensure_output_dir_def utc_now_def Let_def table_rows_def)
  from insert_rows_result [of clock ?rid ?f results "[]" ?d3] ins
  consider e where "res = Inl e" | "res = Inr (map (stored_row ?rid ?f) results)"
    by auto
  then show ?thesis
  proof cases
    case 1
    then have "table_rows (snd (save_sqlite clock results output_dir db_name run_id d)) ?path
               = table_rows d ?path @ []"
      by (simp add: unf tab table_rows_def)
    then show ?thesis by blast
  next
    case 2
    then have "table_rows (snd (save_sqlite clock results output_dir db_name run_id d)) ?path
               = table_rows d ?path @ map (stored_row ?rid ?f) results"
      by (simp add: unf table_rows_def)
    then show ?thesis by blast
  qed
qed

lemma save_sqlite_storable:
  assumes "results \<noteq> []" and "list_all storable results"
  shows "fst (save_sqlite clock results output_dir db_name run_id d)
           = Inr (path_join output_dir db_name)"
    and "table_rows (snd (save_sqlite clock results output_dir db_name run_id d))
                  (path_join output_dir db_name)
           = table_rows d (path_join output_dir db_name)
             @ map (stored_row (run_id_of run_id (clock (tick d))) (utc_stamp (clock (tick d))))
                 results"
    and "tick (snd (save_sqlite clock results output_dir db_name run_id d))
           = tick d + 1 + length results"
  using assms
  by (simp_all add: save_sqlite_def ensure_output_dir_def utc_now_def Let_def
      table_rows_def insert_rows_storable)

lemma insert_rows_unstorable:
  assumes "\<not> list_all storable rs"
  shows "\<exists>e. fst (insert_rows clock rid f rs pending d) = Inl e"
  using assms
proof (induction rs arbitrary: pending d)
  case Nil
  then show ?case by simp
next
  case (Cons r rs)
  show ?case
  proof (cases "storable r")
    case True
    with Cons.prems have "\<not> list_all storable rs" by simp
    from Cons.IH [OF this] True show ?thesis
      by (simp add: flatten_summary_eq sqlite_row_stamped stored_row_bindable)
  next
    case False
    then show ?thesis
      by (simp add: flatten_summary_eq sqlite_row_stamped stored_row_bindable)
  qed
qed

lemma save_sqlite_unstorable:
  assumes "results \<noteq> []" and "\<not> list_all storable results"
  shows "\<exists>e. fst (save_sqlite clock results output_dir db_name run_id d) = Inl e"
    and "table_rows (snd (save_sqlite clock results output_dir db_name run_id d))
           (path_join output_dir db_name)
         = table_rows d (path_join output_dir db_name)"
proof -
  let ?path = "path_join output_dir db_name"
  let ?rid = "run_id_of run_id (clock (tick d))"
  let ?f = "utc_stamp (clock (tick d))"
  let ?d2 = "d\<lparr>dirs := insert output_dir (dirs d), tick := Suc (tick d)\<rparr>"
  let ?d3 = "?d2\<lparr>stats_tables := (stats_tables ?d2)(?path \<mapsto> table_rows d ?path)\<rparr>"
  obtain res d4 where ins: "insert_rows clock ?rid ?f results [] ?d3 = (res, d4)"
    by (cases "insert_rows clock ?rid ?f results [] ?d3") auto
  from insert_rows_unstorable [OF assms(2), of clock ?rid ?f "[]" ?d3] ins
  obtain e where e: "res = Inl e" by auto
  have tab: "stats_tables d4 = stats_tables ?d3"
    using insert_rows_tables [of clock ?rid ?f results "[]" ?d3] ins by simp
  have unf: "save_sqlite clock results output_dir db_name run_id d = (Inl e, d4)"
    using assms(1) ins e
    by (simp add: save_sqlite_def ensure_output_dir_def utc_now_def Let_def table_rows_def)
  show "\<exists>e. fst (save_sqlite clock results output_dir db_name run_id d) = Inl e"
    by (simp add: unf)
  show "table_rows (snd (save_sqlite clock results output_dir db_name run_id d)) ?path
         = table_rows d ?path"
    by (simp add: unf tab table_rows_def)
qed

text \<open>
  C10. One call of \<open>save_sqlite\<close> on a non-empty list reads the clock once for the
  whole call and takes the timestamp and (when the caller gives none) the run id from
  that reading. Every row it adds to the table carries that timestamp and that run id.
  \<open>flatten_summary\<close> stamps each summary with a clock reading of its own, so the call
  reads the clock once more per record, but that stamp is replaced before the row is
  built. When the driver can bind every value, one row per record is added.
\<close>

theorem save_sqlite_one_stamp:
  assumes "results \<noteq> []"
  shows "\<exists>new. table_rows (snd (save_sqlite clock results output_dir db_name run_id d))
                  (path_join output_dir db_name)
               = table_rows d (path_join output_dir db_name) @ new
       \<and> (\<forall>row\<in>set new.
              map_of row ''fetched_at'' = Some (JStr (utc_stamp (clock (tick d))))
            \<and> map_of row ''run_id'' = Some (JStr (run_id_of run_id (clock (tick d)))))
       \<and> (list_all storable results \<longrightarrow>
              length new = length results
            \<and> fst (save_sqlite clock results output_dir db_name run_id d)
                = Inr (path_join output_dir db_name)
            \<and> tick (snd (save_sqlite clock results output_dir db_name run_id d))
                = tick d + 1 + length results)
       \<and> (\<forall>r\<in>set results. \<forall>d'.
              map_of (fst (flatten_summary clock r d')) ''fetched_at''
                = Some (JStr (utc_stamp (clock (tick d')))))"
proof -
  let ?path = "path_join output_dir db_name"
  let ?mk = "stored_row (run_id_of run_id (clock (tick d))) (utc_stamp (clock (tick d)))"
  from save_sqlite_rows [OF assms, of clock output_dir db_name run_id d]
  obtain new where tab: "table_rows (snd (save_sqlite clock results output_dir db_name run_id d)) ?path
                       = table_rows d ?path @ new"
    and new: "new = [] \<or> new = map ?mk results"
    by blast
  have stamp: "\<forall>row\<in>set new.
              map_of row ''fetched_at'' = Some (JStr (utc_stamp (clock (tick d))))
            \<and> map_of row ''run_id'' = Some (JStr (run_id_of run_id (clock (tick d))))"
    using new by (auto simp: map_of_stored_row)
  have full: "list_all storable results \<longrightarrow>
              length new = length results
            \<and> fst (save_sqlite clock results output_dir db_name run_id d) = Inr ?path
            \<and> tick (snd (save_sqlite clock results output_dir db_name run_id d))
                = tick d + 1 + length results"
  proof
    assume st: "list_all storable results"
    from save_sqlite_storable(2) [OF assms st, of clock output_dir db_name run_id d] tab
    have "new = map ?mk results" by simp
    then show "length new = length results
            \<and> fst (save_sqlite clock results output_dir db_name run_id d) = Inr ?path
            \<and> tick (snd (save_sqlite clock results output_dir db_name run_id d))
                = tick d + 1 + length results"
      using save_sqlite_storable(1,3) [OF assms st, of clock output_dir db_name run_id d]
      by simp
  qed
  have own: "\<forall>r\<in>set results. \<forall>d'.
              map_of (fst (flatten_summary clock r d')) ''fetched_at''
                = Some (JStr (utc_stamp (clock (tick d'))))"
    by (simp add: flatten_summary_eq map_of_summary_at)
  from tab stamp full own show ?thesis by blast
qed

theorem save_sqlite_one_stamp_witness:
  "[stats_foo, stats_bar] \<noteq> []
   \<and> list_all storable [stats_foo, stats_bar]
   \<and> table_rows disk0 ''out/bf6_stats.db'' = []
   \<and> map (\<lambda>row. (map_of row ''run_id'', map_of row ''fetched_at''))
        (table_rows (snd (save_sqlite clock0 [stats_foo, stats_bar] ''out'' ''bf6_stats.db''
                            (Some ''r1'') disk0)) ''out/bf6_stats.db'')
       = [(Some (JStr ''r1''), Some (JStr (utc_stamp (clock0 0)))),
          (Some (JStr ''r1''), Some (JStr (utc_stamp (clock0 0))))]
   \<and> map_of (fst (flatten_summary clock0 stats_bar (disk0\<lparr>tick := 2\<rparr>))) ''fetched_at''
       = Some (JStr (utc_stamp (clock0 2)))"
proof -
  let ?rs = "[stats_foo, stats_bar]"
  let ?d' = "snd (save_sqlite clock0 ?rs ''out'' ''bf6_stats.db'' (Some ''r1'') disk0)"
  have ne: "?rs \<noteq> []" by simp
  have st: "list_all storable ?rs" by code_simp
  have empty: "table_rows disk0 ''out/bf6_stats.db'' = []"
    by (simp add: table_rows_def disk0_def)
  have path: "path_join ''out'' ''bf6_stats.db'' = ''out/bf6_stats.db''"
    by (simp add: path_join_def)
  have rid: "run_id_of (Some ''r1'') (clock0 (tick disk0)) = ''r1''"
    by (simp add: run_id_of_def)
  from save_sqlite_one_stamp [OF ne, of clock0 "''out''" "''bf6_stats.db''" "Some ''r1''" disk0]
  obtain new where tab: "table_rows ?d' ''out/bf6_stats.db'' = new"
    and stamp: "\<forall>row\<in>set new.
              map_of row ''fetched_at'' = Some (JStr (utc_stamp (clock0 (tick disk0))))
            \<and> map_of row ''run_id'' = Some (JStr ''r1'')"
    and len: "length new = length ?rs"
    and own: "\<forall>r\<in>set ?rs. \<forall>d'.
              map_of (fst (flatten_summary clock0 r d')) ''fetched_at''
                = Some (JStr (utc_stamp (clock0 (tick d'))))"
    using st by (auto simp: path rid empty)
  from len obtain a b where ab: "new = [a, b]"
    by (cases new; cases "tl new") auto
  have t0: "tick disk0 = 0" by (simp add: disk0_def)
  have "map (\<lambda>row. (map_of row ''run_id'', map_of row ''fetched_at'')) new
        = [(Some (JStr ''r1''), Some (JStr (utc_stamp (clock0 0)))),
           (Some (JStr ''r1''), Some (JStr (utc_stamp (clock0 0))))]"
    using stamp by (simp add: ab t0)
  moreover have "map_of (fst (flatten_summary clock0 stats_bar (disk0\<lparr>tick := 2\<rparr>))) ''fetched_at''
       = Some (JStr (utc_stamp (clock0 2)))"
    using own by simp
  ultimately show ?thesis
    using ne st empty tab by simp
qed

text \<open>
  C8. Two calls of \<open>save_sqlite\<close> in a row, with the same non-empty results, the same
  directory and file and the same non-empty run id. Each call leaves the rows that were in
  the table untouched and puts its new rows behind them, and the second call adds as many
  rows as the first. When the driver can bind every allow-listed value, both calls return
  the path of the database and each adds one row per record, with the given run id: the
  table then holds the rows it had before and twice the number of records, which is twice
  the count after the first call exactly when the table was empty or absent before.
\<close>

theorem save_sqlite_appends_twice:
  assumes "results \<noteq> []" and "rid \<noteq> []"
    and "d1 = snd (save_sqlite clock results output_dir db_name (Some rid) d)"
    and "d2 = snd (save_sqlite clock results output_dir db_name (Some rid) d1)"
    and "db_path = path_join output_dir db_name"
  shows "(\<exists>new1 new2.
            table_rows d1 db_path = table_rows d db_path @ new1
          \<and> table_rows d2 db_path = table_rows d1 db_path @ new2
          \<and> length new1 = length new2)
       \<and> (table_rows d db_path = [] \<longrightarrow>
            length (table_rows d2 db_path) = 2 * length (table_rows d1 db_path))
       \<and> (list_all storable results \<longrightarrow>
            fst (save_sqlite clock results output_dir db_name (Some rid) d) = Inr db_path
          \<and> fst (save_sqlite clock results output_dir db_name (Some rid) d1) = Inr db_path
          \<and> table_rows d1 db_path
              = table_rows d db_path @ map (stored_row rid (utc_stamp (clock (tick d)))) results
          \<and> table_rows d2 db_path
              = table_rows d1 db_path @ map (stored_row rid (utc_stamp (clock (tick d1)))) results
          \<and> length (table_rows d1 db_path) = length (table_rows d db_path) + length results
          \<and> length (table_rows d2 db_path) = length (table_rows d db_path) + 2 * length results
          \<and> (length (table_rows d2 db_path) = 2 * length (table_rows d1 db_path)
               \<longleftrightarrow> table_rows d db_path = []))"
proof -
  have rid: "\<And>t. run_id_of (Some rid) t = rid"
    using assms(2) by (cases rid) (simp_all add: run_id_of_def)
  have full: "list_all storable results \<Longrightarrow>
            fst (save_sqlite clock results output_dir db_name (Some rid) d) = Inr db_path
          \<and> fst (save_sqlite clock results output_dir db_name (Some rid) d1) = Inr db_path
          \<and> table_rows d1 db_path
              = table_rows d db_path @ map (stored_row rid (utc_stamp (clock (tick d)))) results
          \<and> table_rows d2 db_path
              = table_rows d1 db_path @ map (stored_row rid (utc_stamp (clock (tick d1)))) results"
  proof -
    assume st: "list_all storable results"
    have one: "table_rows d1 db_path
           = table_rows d db_path @ map (stored_row rid (utc_stamp (clock (tick d)))) results"
      using save_sqlite_storable(2) [OF assms(1) st, of clock output_dir db_name "Some rid" d]
      by (simp add: assms(3,5) rid)
    have two: "table_rows d2 db_path
           = table_rows d1 db_path @ map (stored_row rid (utc_stamp (clock (tick d1)))) results"
      using save_sqlite_storable(2) [OF assms(1) st, of clock output_dir db_name "Some rid" d1]
      by (simp add: assms(4,5) rid)
    have r1: "fst (save_sqlite clock results output_dir db_name (Some rid) d) = Inr db_path"
      using save_sqlite_storable(1) [OF assms(1) st] by (simp add: assms(5))
    have r2: "fst (save_sqlite clock results output_dir db_name (Some rid) d1) = Inr db_path"
      using save_sqlite_storable(1) [OF assms(1) st] by (simp add: assms(5))
    from r1 r2 one two show ?thesis by simp
  qed
  have grow: "\<exists>new1 new2.
            table_rows d1 db_path = table_rows d db_path @ new1
          \<and> table_rows d2 db_path = table_rows d1 db_path @ new2
          \<and> length new1 = length new2"
  proof (cases "list_all storable results")
    case True
    from full [OF True] show ?thesis
      by (metis length_map)
  next
    case False
    have "table_rows d1 db_path = table_rows d db_path @ []"
      using save_sqlite_unstorable(2) [OF assms(1) False, of clock output_dir db_name "Some rid" d]
      by (simp add: assms(3,5))
    moreover have "table_rows d2 db_path = table_rows d1 db_path @ []"
      using save_sqlite_unstorable(2) [OF assms(1) False, of clock output_dir db_name "Some rid" d1]
      by (simp add: assms(4,5))
    ultimately show ?thesis by blast
  qed
  have twice: "table_rows d db_path = [] \<longrightarrow>
            length (table_rows d2 db_path) = 2 * length (table_rows d1 db_path)"
    using grow by auto
  have count: "list_all storable results \<Longrightarrow>
            length (table_rows d1 db_path) = length (table_rows d db_path) + length results
          \<and> length (table_rows d2 db_path) = length (table_rows d db_path) + 2 * length results
          \<and> (length (table_rows d2 db_path) = 2 * length (table_rows d1 db_path)
               \<longleftrightarrow> table_rows d db_path = [])"
    using full by auto
  from grow twice full count show ?thesis by blast
qed

theorem save_sqlite_appends_twice_witness:
  "[stats_foo, stats_bar] \<noteq> [] \<and> ''r1'' \<noteq> [] \<and> list_all storable [stats_foo, stats_bar]
   \<and> table_rows disk0 ''out/bf6_stats.db'' = []
   \<and> length (table_rows (snd (save_sqlite clock0 [stats_foo, stats_bar] ''out'' ''bf6_stats.db''
                                 (Some ''r1'') disk0)) ''out/bf6_stats.db'') = 2
   \<and> length (table_rows
               (snd (save_sqlite clock0 [stats_foo, stats_bar] ''out'' ''bf6_stats.db'' (Some ''r1'')
                  (snd (save_sqlite clock0 [stats_foo, stats_bar] ''out'' ''bf6_stats.db''
                          (Some ''r1'') disk0))))
               ''out/bf6_stats.db'') = 4"
proof -
  let ?rs = "[stats_foo, stats_bar]"
  let ?d1 = "snd (save_sqlite clock0 ?rs ''out'' ''bf6_stats.db'' (Some ''r1'') disk0)"
  let ?d2 = "snd (save_sqlite clock0 ?rs ''out'' ''bf6_stats.db'' (Some ''r1'') ?d1)"
  have ne: "?rs \<noteq> []" by simp
  have rid: "''r1'' \<noteq> []" by simp
  have st: "list_all storable ?rs" by code_simp
  have empty: "table_rows disk0 ''out/bf6_stats.db'' = []"
    by (simp add: table_rows_def disk0_def)
  have path: "''out/bf6_stats.db'' = path_join ''out'' ''bf6_stats.db''"
    by (simp add: path_join_def)
  note th = save_sqlite_appends_twice [OF ne rid refl refl path, of clock0 disk0]
  from th st have one: "table_rows ?d1 ''out/bf6_stats.db''
      = table_rows disk0 ''out/bf6_stats.db'' @ map (stored_row ''r1'' (utc_stamp (clock0 (tick disk0)))) ?rs"
    by blast
  from th st have two: "length (table_rows ?d2 ''out/bf6_stats.db'')
      = length (table_rows disk0 ''out/bf6_stats.db'') + 2 * length ?rs"
    by blast
  show ?thesis
    using ne st empty one two by simp
qed

theorem save_sqlite_count_not_doubled:
  "length (table_rows disk1 ''out/bf6_stats.db'') = 1
   \<and> length (table_rows (snd (save_sqlite clock0 [stats_foo] ''out'' ''bf6_stats.db''
                                 (Some ''r1'') disk1)) ''out/bf6_stats.db'') = 2
   \<and> length (table_rows
               (snd (save_sqlite clock0 [stats_foo] ''out'' ''bf6_stats.db'' (Some ''r1'')
                  (snd (save_sqlite clock0 [stats_foo] ''out'' ''bf6_stats.db''
                          (Some ''r1'') disk1))))
               ''out/bf6_stats.db'') = 3
   \<and> length (table_rows
               (snd (save_sqlite clock0 [stats_foo] ''out'' ''bf6_stats.db'' (Some ''r1'')
                  (snd (save_sqlite clock0 [stats_foo] ''out'' ''bf6_stats.db''
                          (Some ''r1'') disk1))))
               ''out/bf6_stats.db'')
       \<noteq> 2 * length (table_rows (snd (save_sqlite clock0 [stats_foo] ''out'' ''bf6_stats.db''
                                        (Some ''r1'') disk1)) ''out/bf6_stats.db'')
   \<and> fst (save_sqlite clock0 [stats_nested] ''out'' ''bf6_stats.db'' (Some ''r1'') disk0)
       = Inl (SqliteBindError ''Error binding parameter'')
   \<and> table_rows (snd (save_sqlite clock0 [stats_nested] ''out'' ''bf6_stats.db'' (Some ''r1'')
                         disk0)) ''out/bf6_stats.db'' = []"
proof -
  let ?p = "''out/bf6_stats.db''"
  let ?d1 = "snd (save_sqlite clock0 [stats_foo] ''out'' ''bf6_stats.db'' (Some ''r1'') disk1)"
  let ?d2 = "snd (save_sqlite clock0 [stats_foo] ''out'' ''bf6_stats.db'' (Some ''r1'') ?d1)"
  have path: "path_join ''out'' ''bf6_stats.db'' = ?p"
    by (simp add: path_join_def)
  have ne: "[stats_foo] \<noteq> []" by simp
  have st: "list_all storable [stats_foo]" by code_simp
  have zero: "length (table_rows disk1 ?p) = 1"
    by (simp add: table_rows_def disk1_def disk0_def)
  have one: "length (table_rows ?d1 ?p) = 2"
    using save_sqlite_storable(2) [OF ne st, of clock0 "''out''" "''bf6_stats.db''" "Some ''r1''" disk1]
    by (simp add: path zero)
  have two: "length (table_rows ?d2 ?p) = 3"
    using save_sqlite_storable(2) [OF ne st, of clock0 "''out''" "''bf6_stats.db''" "Some ''r1''" ?d1]
    by (simp add: path one)
  have ne': "[stats_nested] \<noteq> []" by simp
  have bad: "\<not> list_all storable [stats_nested]" by code_simp
  then have "\<not> storable stats_nested" by simp
  then have err: "fst (save_sqlite clock0 [stats_nested] ''out'' ''bf6_stats.db'' (Some ''r1'') disk0)
             = Inl (SqliteBindError ''Error binding parameter'')"
    by (simp add: save_sqlite_def ensure_output_dir_def utc_now_def Let_def flatten_summary_eq
        sqlite_row_stamped stored_row_bindable)
  have none: "table_rows (snd (save_sqlite clock0 [stats_nested] ''out'' ''bf6_stats.db''
                                 (Some ''r1'') disk0)) ?p = []"
    using save_sqlite_unstorable(2) [OF ne' bad, of clock0 "''out''" "''bf6_stats.db''"
        "Some ''r1''" disk0]
    by (simp add: path table_rows_def disk0_def)
  from zero one two err none show ?thesis by simp
qed

section \<open>Resolving ids and grouping them\<close>

lemma request_error_is_client_error:
  "request c net m path params body st = (Inl e, st') \<Longrightarrow> \<exists>msg. e = BF6APIError msg"
  using attempt_error_is_client_error
    [of c net "http_call c m path params body" "[0..<max_retries c]" st e]
  by (simp add: request_def)

lemma get_player_id_error:
  assumes "get_player_id c net nm plat st = (Inl e, st')"
  shows "\<exists>msg. e = BF6APIError msg"
proof (cases "request c net GET ''/bf6/player/'' (Some [(''name'', nm), (''platform'', plat)]) None st")
  case (Pair r st1)
  show ?thesis
  proof (cases r)
    case (Inl e1)
    with Pair assms have "e = e1" by (simp add: get_player_id_def)
    with Pair Inl request_error_is_client_error show ?thesis by blast
  next
    case (Inr data)
    with Pair assms show ?thesis
      by (auto simp: get_player_id_def split: json.splits list.splits if_splits)
  qed
qed

lemma resolve_ids_eq:
  "resolve_ids c net repr ps groups st =
     (case resolutions c net repr ps st of
        (pairs, st') \<Rightarrow> (Inr (fold (\<lambda>(k, v). setdefault_append k v) pairs groups), st'))"
proof (induction ps arbitrary: groups st)
  case Nil
  then show ?case by simp
next
  case (Cons p ps)
  obtain r st1 where g: "get_player_id c net (name p) (platform p) st = (r, st1)"
    by (cases "get_player_id c net (name p) (platform p) st") auto
  show ?case
  proof (cases r)
    case (Inl e)
    with g get_player_id_error obtain msg where "e = BF6APIError msg" by blast
    with g Inl show ?thesis by (simp add: Cons.IH)
  next
    case (Inr info)
    with g show ?thesis by (simp add: Cons.IH split: prod.splits)
  qed
qed

lemma setdefault_append_map:
  assumes "distinct ks"
  shows "setdefault_append k v (map (\<lambda>p. (p, f p)) ks) =
         (if k \<in> set ks then map (\<lambda>p. (p, if p = k then f p @ [v] else f p)) ks
          else map (\<lambda>p. (p, f p)) ks @ [(k, [v])])"
  using assms
proof (induction ks)
  case Nil
  then show ?case by simp
next
  case (Cons a ks)
  show ?case
  proof (cases "a = k")
    case True
    then have "k \<notin> set ks" using Cons.prems by simp
    then have "map (\<lambda>p. (p, if p = k then f p @ [v] else f p)) ks = map (\<lambda>p. (p, f p)) ks"
      by (intro map_cong refl) auto
    then show ?thesis using True by simp
  next
    case False
    then show ?thesis using Cons by auto
  qed
qed

lemma setdefault_append_group:
  "setdefault_append k v (group_by_platform pre) = group_by_platform (pre @ [(k, v)])"
proof -
  let ?f = "\<lambda>p. map snd (filter (\<lambda>kv. fst kv = p) pre)"
  let ?g = "\<lambda>p. map snd (filter (\<lambda>kv. fst kv = p) (pre @ [(k, v)]))"
  let ?ks = "first_seen (map fst pre)"
  have step: "setdefault_append k v (map (\<lambda>p. (p, ?f p)) ?ks) =
         (if k \<in> set ?ks then map (\<lambda>p. (p, if p = k then ?f p @ [v] else ?f p)) ?ks
          else map (\<lambda>p. (p, ?f p)) ?ks @ [(k, [v])])"
    by (rule setdefault_append_map) simp
  show ?thesis
  proof (cases "k \<in> set (map fst pre)")
    case True
    have "map (\<lambda>p. (p, if p = k then ?f p @ [v] else ?f p)) ?ks = map (\<lambda>p. (p, ?g p)) ?ks"
      by (intro map_cong refl) auto
    then show ?thesis
      using True step by (simp add: group_by_platform_def first_seen_snoc)
  next
    case False
    then have none: "filter (\<lambda>kv. fst kv = k) pre = []"
      by (auto simp: filter_empty_conv)
    have "map (\<lambda>p. (p, ?f p)) ?ks = map (\<lambda>p. (p, ?g p)) ?ks"
      using False by (intro map_cong refl) auto
    then show ?thesis
      using False step none by (simp add: group_by_platform_def first_seen_snoc)
  qed
qed

lemma fold_setdefault_append_group:
  "fold (\<lambda>(k, v). setdefault_append k v) pairs (group_by_platform pre)
   = group_by_platform (pre @ pairs)"
proof (induction pairs arbitrary: pre)
  case Nil
  then show ?case by simp
next
  case (Cons kv pairs)
  obtain k v where kv: "kv = (k, v)" by (cases kv)
  show ?case
    using Cons.IH [of "pre @ [(k, v)]"] by (simp add: kv setdefault_append_group)
qed

lemma resolve_ids_groups:
  "resolve_ids c net repr ps [] st =
     (case resolutions c net repr ps st of
        (pairs, st') \<Rightarrow> (Inr (group_by_platform pairs), st'))"
proof -
  have "group_by_platform [] = []"
    by (simp add: group_by_platform_def first_seen_def)
  with fold_setdefault_append_group [of _ "[]"]
  have "\<And>pairs. fold (\<lambda>(k, v). setdefault_append k v) pairs [] = group_by_platform pairs"
    by simp
  then show ?thesis by (simp add: resolve_ids_eq)
qed

section \<open>Fetching the groups chunk by chunk\<close>

lemma fetch_chunks_eq:
  "fetch_chunks c net repr plat id_list offsets results st =
     after results
       (call_batches c net repr
          (map (\<lambda>i. (plat, take BATCH_SIZE (drop i id_list))) offsets) st)"
proof (induction offsets arbitrary: results st)
  case Nil
  then show ?case by (simp add: after_def)
next
  case (Cons i offsets)
  show ?case
    by (simp add: Cons.IH after_def py_extend_def split: prod.splits sum.splits)
qed

lemma call_batches_append:
  "call_batches c net repr (xs @ ys) st =
     (case call_batches c net repr xs st of
        (Inl e, st') \<Rightarrow> (Inl e, st')
      | (Inr items, st') \<Rightarrow> after items (call_batches c net repr ys st'))"
proof (induction xs arbitrary: st)
  case Nil
  then show ?case by (simp add: after_def split: prod.splits sum.splits)
next
  case (Cons x xs)
  obtain plat chunk where x: "x = (plat, chunk)" by (cases x)
  show ?case
    by (simp add: x Cons.IH after_def split: prod.splits sum.splits)
qed

lemma fetch_groups_eq:
  "fetch_groups c net repr groups results st =
     after results (call_batches c net repr (batch_plan groups) st)"
proof (induction groups arbitrary: results st)
  case Nil
  then show ?case by (simp add: after_def batch_plan_def)
next
  case (Cons g groups)
  obtain plat ids where g: "g = (plat, ids)" by (cases g)
  have plan: "batch_plan (g # groups) = map (\<lambda>ch. (plat, ch)) (id_chunks ids) @ batch_plan groups"
    by (simp add: g batch_plan_def)
  have chunks: "map (\<lambda>i. (plat, take BATCH_SIZE (drop i ids))) (py_range 0 (length ids) BATCH_SIZE)
                = map (\<lambda>ch. (plat, ch)) (id_chunks ids)"
    by (simp add: id_chunks_def)
  show ?case
    unfolding plan call_batches_append
    by (simp add: g fetch_chunks_eq chunks Cons.IH after_def split: prod.splits sum.splits)
qed

lemma run_pipeline_batch:
  assumes "1 < length players"
  shows "run_pipeline net repr players True rl st0 =
     (case BF6APIClient BASE_URL rl MAX_RETRIES st0 of
        (c, st) \<Rightarrow>
          (case resolutions c net repr players st of
             (pairs, st1) \<Rightarrow> call_batches c net repr (batch_plan (group_by_platform pairs)) st1))"
  using assms
  by (simp add: run_pipeline_def resolve_ids_groups fetch_groups_eq after_def
      split: prod.splits sum.splits)

section \<open>The chunks\<close>

lemma py_range_bounds:
  "i \<in> set (py_range start stop step) \<Longrightarrow> start \<le> i \<and> i < stop"
proof (induction start stop step rule: py_range.induct)
  case (1 start stop step)
  show ?case
  proof (cases "step = 0 \<or> stop \<le> start")
    case True
    with "1.prems" show ?thesis by (simp add: py_range.simps)
  next
    case False
    with "1.prems" have "i = start \<or> i \<in> set (py_range (start + step) stop step)"
      by (simp add: py_range.simps [of start])
    with "1.IH" [OF False] False show ?thesis by auto
  qed
qed

lemma py_range_butlast:
  "i \<in> set (butlast (py_range start stop step)) \<Longrightarrow> i + step < stop"
proof (induction start stop step rule: py_range.induct)
  case (1 start stop step)
  show ?case
  proof (cases "step = 0 \<or> stop \<le> start")
    case True
    with "1.prems" show ?thesis by (simp add: py_range.simps)
  next
    case False
    show ?thesis
    proof (cases "py_range (start + step) stop step = []")
      case True
      with False "1.prems" show ?thesis by (simp add: py_range.simps [of start])
    next
      case nonempty: False
      then have more: "start + step < stop"
        by (auto simp: py_range.simps [of "start + step"] split: if_splits)
      from False nonempty "1.prems"
      have "i = start \<or> i \<in> set (butlast (py_range (start + step) stop step))"
        by (simp add: py_range.simps [of start])
      with "1.IH" [OF False] more show ?thesis by auto
    qed
  qed
qed

lemma concat_chunks:
  "0 < step \<Longrightarrow>
   concat (map (\<lambda>i. take step (drop i xs)) (py_range start (length xs) step)) = drop start xs"
proof (induction start "length xs" step rule: py_range.induct)
  case (1 start step)
  show ?case
  proof (cases "length xs \<le> start")
    case True
    then show ?thesis by (simp add: py_range.simps)
  next
    case False
    with "1.prems" have go: "\<not> (step = 0 \<or> length xs \<le> start)" by simp
    have "take step (drop start xs) @ drop (start + step) xs = drop start xs"
      by (metis add.commute append_take_drop_id drop_drop)
    with "1.hyps" [OF go "1.prems"] go show ?thesis
      by (simp add: py_range.simps [of start])
  qed
qed

lemma id_chunks_concat: "concat (id_chunks ids) = ids"
  using concat_chunks [of BATCH_SIZE ids 0] by (simp add: id_chunks_def BATCH_SIZE_def)

lemma id_chunks_sizes:
  assumes "ch \<in> set (id_chunks ids)"
  shows "0 < length ch \<and> length ch \<le> 128"
proof -
  from assms obtain i where i: "i \<in> set (py_range 0 (length ids) BATCH_SIZE)"
    and ch: "ch = take BATCH_SIZE (drop i ids)"
    by (auto simp: id_chunks_def)
  from py_range_bounds [OF i] show ?thesis
    by (simp add: ch BATCH_SIZE_def)
qed

lemma id_chunks_full:
  assumes "ch \<in> set (butlast (id_chunks ids))"
  shows "length ch = 128"
proof -
  from assms obtain i where i: "i \<in> set (butlast (py_range 0 (length ids) BATCH_SIZE))"
    and ch: "ch = take BATCH_SIZE (drop i ids)"
    by (auto simp: id_chunks_def map_butlast [symmetric])
  from py_range_butlast [OF i] show ?thesis
    by (simp add: ch BATCH_SIZE_def)
qed

lemma py_range_300: "py_range 0 300 128 = [0, 128, 256]"
  by (simp add: py_range.simps)

lemma id_chunks_300:
  assumes "length ids = 300"
  shows "map length (id_chunks ids) = [128, 128, 44]"
  using assms by (simp add: id_chunks_def BATCH_SIZE_def py_range_300)

section \<open>Calls that succeed at once, calls that fail three times\<close>

lemma request_down:
  assumes "max_retries c = 3"
    and "\<And>n. fst (net n (http_call c m path params body)) = Response 503 txt js"
  shows "fst (request c net m path params body st) = Inl (BF6APIError (Server_error 503 (take 200 txt)))"
proof -
  have "\<forall>k<3. retryable_failure (fst (net (sent st + k) (http_call c m path params body)))"
    by (simp add: assms(2) retryable_failure_def)
  from request_all_fail [where c = c and m = m and path = path and params = params
      and body = body and net = net and st = st and rq = "http_call c m path params body",
      OF assms(1) refl this]
  show ?thesis
    by (simp add: assms(2) failure_message_def)
qed

lemma echo_lookup:
  assumes "0 < max_retries c" and "get_player_id c net_echo nm plat st = (r, st')"
  shows "r = Inr [(''id'', JStr nm)]"
proof -
  have "request c net_echo GET ''/bf6/player/'' (Some [(''name'', nm), (''platform'', plat)]) None st
        = (Inr (JObj [(''id'', JStr nm)]),
           attempt_state c net_echo
             (http_call c GET ''/bf6/player/'' (Some [(''name'', nm), (''platform'', plat)]) None) st)"
    by (rule request_ok [where status = "200" and btext = "[]", OF assms(1)])
      (simp_all add: net_echo_def http_call_def)
  with assms(2) show ?thesis by (simp add: get_player_id_def)
qed

lemma echo_batch:
  assumes "0 < max_retries c" and "ids \<noteq> []" and "length ids \<le> 128"
    and "get_stats_batch c net_echo repr (map JStr ids) plat st = (r, st')"
  shows "r = Inr (JArr (map JStr ids))"
proof -
  have body: "batch_body repr (map JStr ids) plat
              = JObj [(''playerIds'', JArr (map JStr ids)), (''platform'', JStr plat)]"
    by (simp add: batch_body_def py_str_def comp_def)
  have "request c net_echo POST ''/bf6/multiple/'' None (Some (batch_body repr (map JStr ids) plat)) st
        = (Inr (JArr (map JStr ids)),
           attempt_state c net_echo
             (http_call c POST ''/bf6/multiple/'' None (Some (batch_body repr (map JStr ids) plat))) st)"
    by (rule request_ok [where status = "200" and btext = "[]", OF assms(1)])
      (simp_all add: net_echo_def http_call_def body)
  with assms(2,3,4) show ?thesis by (simp add: get_stats_batch_def)
qed

lemma batch_down_lookup:
  assumes "0 < max_retries c" and "get_player_id c net_batch_down nm plat st = (r, st')"
  shows "r = Inr [(''id'', JInt 1)]"
proof -
  have "request c net_batch_down GET ''/bf6/player/'' (Some [(''name'', nm), (''platform'', plat)]) None st
        = (Inr (JObj [(''id'', JInt 1)]),
           attempt_state c net_batch_down
             (http_call c GET ''/bf6/player/'' (Some [(''name'', nm), (''platform'', plat)]) None) st)"
    by (rule request_ok [where status = "200" and btext = "[]", OF assms(1)])
      (simp_all add: net_batch_down_def http_call_def)
  with assms(2) show ?thesis by (simp add: get_player_id_def)
qed

lemma batch_down_batch:
  assumes "max_retries c = 3" and "ids \<noteq> []" and "length ids \<le> 128"
    and "get_stats_batch c net_batch_down repr ids plat st = (r, st')"
  shows "r = Inl (BF6APIError (Server_error 503 ''Service Unavailable''))"
proof -
  have "fst (request c net_batch_down POST ''/bf6/multiple/'' None (Some (batch_body repr ids plat)) st)
        = Inl (BF6APIError (Server_error 503 (take 200 ''Service Unavailable'')))"
    by (rule request_down [OF assms(1)]) (simp add: net_batch_down_def http_call_def)
  with assms(2,3,4) show ?thesis
    by (cases "request c net_batch_down POST ''/bf6/multiple/'' None
                 (Some (batch_body repr ids plat)) st")
      (simp add: get_stats_batch_def)
qed

lemma unavailable_stats:
  assumes "max_retries c = 3" and "nm \<noteq> []"
    and "get_stats c net_unavailable repr (Some nm) None plat st = (r, st')"
  shows "r = Inl (BF6APIError (Server_error 503 ''Service Unavailable''))"
proof -
  have "fst (request c net_unavailable GET ''/bf6/stats/''
               (Some [(''platform'', plat), (''name'', nm)]) None st)
        = Inl (BF6APIError (Server_error 503 (take 200 ''Service Unavailable'')))"
    by (rule request_down [OF assms(1)]) (simp add: net_unavailable_def)
  with assms(2,3) show ?thesis
    by (cases nm) (auto simp: get_stats_def)
qed

lemma default_client:
  "BF6APIClient BASE_URL rl MAX_RETRIES st0 = (c, st) \<Longrightarrow> max_retries c = 3"
  by (auto simp: BF6APIClient_def MAX_RETRIES_def)

lemma py_range_one: "0 < n \<Longrightarrow> n \<le> 128 \<Longrightarrow> py_range 0 n 128 = [0]"
  by (simp add: py_range.simps)

section \<open>Batch mode\<close>

text \<open>
  C5. In batch mode (batching asked for, more than one descriptor) \<open>run_pipeline\<close>
  is: resolve the descriptors in input order, group the resolved ids by platform, and
  make the planned calls in order, concatenating what they return. The groups come in
  the order their platforms were first resolved and keep their ids in input order. The
  plan of a group is its chunks: consecutive pieces of the id list that put together give
  the list back, each of 1 to 128 ids and all but the last of exactly 128; 300 ids give
  three calls of 128, 128 and 44 ids. The records of an earlier call come before those of
  a later one.
\<close>

theorem batch_mode_chunking:
  assumes "1 < length players"
  shows "run_pipeline net repr players True rl st0 =
           (case BF6APIClient BASE_URL rl MAX_RETRIES st0 of
              (c, st) \<Rightarrow>
                (case resolutions c net repr players st of
                   (pairs, st1) \<Rightarrow>
                     call_batches c net repr (batch_plan (group_by_platform pairs)) st1))
    \<and> (\<forall>pairs. map fst (group_by_platform pairs) = first_seen (map fst pairs)
           \<and> (\<forall>g\<in>set (group_by_platform pairs).
                 snd g = map snd (filter (\<lambda>kv. fst kv = fst g) pairs)))
    \<and> (\<forall>plat ids groups.
          batch_plan ((plat, ids) # groups)
            = map (\<lambda>ch. (plat, ch)) (id_chunks ids) @ batch_plan groups)
    \<and> (\<forall>ids. concat (id_chunks ids) = ids
           \<and> (\<forall>ch\<in>set (id_chunks ids). 0 < length ch \<and> length ch \<le> 128)
           \<and> (\<forall>ch\<in>set (butlast (id_chunks ids)). length ch = 128)
           \<and> (length ids = 300 \<longrightarrow> map length (id_chunks ids) = [128, 128, 44]))
    \<and> (\<forall>c xs ys st.
          call_batches c net repr (xs @ ys) st
            = (case call_batches c net repr xs st of
                 (Inl e, st') \<Rightarrow> (Inl e, st')
               | (Inr items, st') \<Rightarrow> after items (call_batches c net repr ys st')))"
proof -
  have groups: "\<forall>pairs. map fst (group_by_platform pairs) = first_seen (map fst pairs)
           \<and> (\<forall>g\<in>set (group_by_platform pairs).
                 snd g = map snd (filter (\<lambda>kv. fst kv = fst g) pairs))"
    by (auto simp: group_by_platform_def comp_def)
  have plan: "\<forall>plat ids groups.
          batch_plan ((plat, ids) # groups)
            = map (\<lambda>ch. (plat, ch)) (id_chunks ids) @ batch_plan groups"
    by (simp add: batch_plan_def)
  have chunks: "\<forall>ids. concat (id_chunks ids) = ids
           \<and> (\<forall>ch\<in>set (id_chunks ids). 0 < length ch \<and> length ch \<le> 128)
           \<and> (\<forall>ch\<in>set (butlast (id_chunks ids)). length ch = 128)
           \<and> (length ids = 300 \<longrightarrow> map length (id_chunks ids) = [128, 128, 44])"
    using id_chunks_concat id_chunks_sizes id_chunks_full id_chunks_300 by blast
  from run_pipeline_batch [OF assms] groups plan chunks call_batches_append
  show ?thesis by blast
qed

theorem batch_mode_chunking_witness:
  "1 < length players0
   \<and> fst (run_pipeline net_echo repr0 players0 True 0 state0)
       = Inr [JStr ''ann'', JStr ''cat'', JStr ''bob'']
   \<and> length (replicate 300 ''7'') = 300
   \<and> map length (id_chunks (replicate 300 ''7'')) = [128, 128, 44]"
proof -
  have len: "1 < length players0" by (simp add: players0_def)
  obtain c st where cl: "BF6APIClient BASE_URL 0 MAX_RETRIES state0 = (c, st)"
    by (cases "BF6APIClient BASE_URL 0 MAX_RETRIES state0") auto
  then have mr: "0 < max_retries c" using default_client by fastforce
  note th = batch_mode_chunking [OF len, of net_echo repr0 0 state0]
  have run: "run_pipeline net_echo repr0 players0 True 0 state0 =
           (case resolutions c net_echo repr0 players0 st of
              (pairs, st1) \<Rightarrow>
                call_batches c net_echo repr0 (batch_plan (group_by_platform pairs)) st1)"
    using th cl by simp
  have three: "map length (id_chunks (replicate 300 ''7'')) = [128, 128, 44]"
    using th by simp
  have pairs: "fst (resolutions c net_echo repr0 players0 st)
               = [(''pc'', ''ann''), (''psn'', ''bob''), (''pc'', ''cat'')]"
    by (auto simp: players0_def pid_of_def py_str_def split: prod.splits sum.splits
        dest!: echo_lookup [OF mr])
  have plan: "batch_plan (group_by_platform [(''pc'', ''ann''), (''psn'', ''bob''), (''pc'', ''cat'')])
              = [(''pc'', [''ann'', ''cat'']), (''psn'', [''bob''])]"
    by (simp add: batch_plan_def group_by_platform_def first_seen_def id_chunks_def
        BATCH_SIZE_def py_range_one)
  have calls: "\<And>s. fst (call_batches c net_echo repr0
                          [(''pc'', [''ann'', ''cat'']), (''psn'', [''bob''])] s)
               = Inr [JStr ''ann'', JStr ''cat'', JStr ''bob'']"
  proof -
    fix s
    obtain r1 s1 where c1: "get_stats_batch c net_echo repr0 (map JStr [''ann'', ''cat'']) ''pc'' s
                            = (r1, s1)"
      by (cases "get_stats_batch c net_echo repr0 (map JStr [''ann'', ''cat'']) ''pc'' s") auto
    obtain r2 s2 where c2: "get_stats_batch c net_echo repr0 (map JStr [''bob'']) ''psn'' s1
                            = (r2, s2)"
      by (cases "get_stats_batch c net_echo repr0 (map JStr [''bob'']) ''psn'' s1") auto
    have "r1 = Inr (JArr (map JStr [''ann'', ''cat'']))"
      by (rule echo_batch [OF mr _ _ c1]) simp_all
    moreover have "r2 = Inr (JArr (map JStr [''bob'']))"
      by (rule echo_batch [OF mr _ _ c2]) simp_all
    ultimately show "fst (call_batches c net_echo repr0
                          [(''pc'', [''ann'', ''cat'']), (''psn'', [''bob''])] s)
               = Inr [JStr ''ann'', JStr ''cat'', JStr ''bob'']"
      using c1 c2 by (simp add: py_iter_def)
  qed
  have "fst (run_pipeline net_echo repr0 players0 True 0 state0)
        = Inr [JStr ''ann'', JStr ''cat'', JStr ''bob'']"
    using pairs calls plan
    by (cases "resolutions c net_echo repr0 players0 st") (simp add: run)
  with len three show ?thesis by simp
qed

section \<open>Failures of remote calls in the pipeline\<close>

text \<open>
  Single mode and the resolution loop of batch mode catch \<open>BF6APIError\<close>: neither
  hands one to the caller.
\<close>

lemma get_stats_error:
  assumes "get_stats c net repr nm pid plat st = (Inl e, st')"
  shows "(\<exists>msg. e = BF6APIError msg) \<or> e = ValueError ''Provide either name or player_id''"
  using assms request_error_is_client_error
  by (auto simp: get_stats_def split: option.splits list.splits)

lemma fetch_single_recovers:
  "fst (fetch_single c net repr ps results st) \<noteq> Inl (BF6APIError msg)"
proof (induction ps arbitrary: results st)
  case Nil
  then show ?case by simp
next
  case (Cons p ps)
  obtain r st1 where g: "get_stats c net repr (Some (name p)) None (platform p) st = (r, st1)"
    by (cases "get_stats c net repr (Some (name p)) None (platform p) st") auto
  show ?case
  proof (cases r)
    case (Inr stats)
    with g Cons.IH show ?thesis by simp
  next
    case (Inl e)
    with g get_stats_error
    consider m where "e = BF6APIError m" | "e = ValueError ''Provide either name or player_id''"
      by blast
    then show ?thesis
      using g Inl Cons.IH by cases simp_all
  qed
qed

lemma resolve_ids_recovers:
  "\<exists>groups. fst (resolve_ids c net repr ps [] st) = Inr groups"
  by (simp add: resolve_ids_groups split: prod.splits)

text \<open>
  C1. The batch fetch is not guarded. Two players on one platform resolve, the server
  then answers the batch request with 503 three times, and \<open>run_pipeline\<close> ends with
  the client's \<open>BF6APIError\<close> instead of a result list. In single mode, on a server
  that is down for every request, the same players are dropped one by one and the
  pipeline returns the empty list.
\<close>

theorem run_pipeline_batch_error_escapes:
  "fst (run_pipeline net_batch_down repr0
          [\<lparr>name = ''ann'', platform = ''pc''\<rparr>, \<lparr>name = ''cat'', platform = ''pc''\<rparr>]
          True 0 state0)
     = Inl (BF6APIError (Server_error 503 ''Service Unavailable''))
   \<and> fst (run_pipeline net_unavailable repr0
          [\<lparr>name = ''ann'', platform = ''pc''\<rparr>, \<lparr>name = ''cat'', platform = ''pc''\<rparr>]
          False 0 state0)
     = Inr []"
proof -
  let ?ps = "[\<lparr>name = ''ann'', platform = ''pc''\<rparr>, \<lparr>name = ''cat'', platform = ''pc''\<rparr>]"
  obtain c st where cl: "BF6APIClient BASE_URL 0 MAX_RETRIES state0 = (c, st)"
    by (cases "BF6APIClient BASE_URL 0 MAX_RETRIES state0") auto
  then have mr3: "max_retries c = 3" by (rule default_client)
  then have mr: "0 < max_retries c" by simp
  have pairs: "fst (resolutions c net_batch_down repr0 ?ps st) = [(''pc'', ''1''), (''pc'', ''1'')]"
    by (auto simp: pid_of_def py_str_def repr0_def split: prod.splits sum.splits
        dest!: batch_down_lookup [OF mr])
  have plan: "batch_plan (group_by_platform [(''pc'', ''1''), (''pc'', ''1'')])
              = [(''pc'', [''1'', ''1''])]"
    by (simp add: batch_plan_def group_by_platform_def first_seen_def id_chunks_def
        BATCH_SIZE_def py_range_one)
  have calls: "\<And>s. fst (call_batches c net_batch_down repr0 [(''pc'', [''1'', ''1''])] s)
               = Inl (BF6APIError (Server_error 503 ''Service Unavailable''))"
  proof -
    fix s
    obtain r1 s1 where c1: "get_stats_batch c net_batch_down repr0 (map JStr [''1'', ''1'']) ''pc'' s
                            = (r1, s1)"
      by (cases "get_stats_batch c net_batch_down repr0 (map JStr [''1'', ''1'']) ''pc'' s") auto
    have "r1 = Inl (BF6APIError (Server_error 503 ''Service Unavailable''))"
      by (rule batch_down_batch [OF mr3 _ _ c1]) simp_all
    then show "fst (call_batches c net_batch_down repr0 [(''pc'', [''1'', ''1''])] s)
               = Inl (BF6APIError (Server_error 503 ''Service Unavailable''))"
      using c1 by simp
  qed
  have batch: "fst (run_pipeline net_batch_down repr0 ?ps True 0 state0)
               = Inl (BF6APIError (Server_error 503 ''Service Unavailable''))"
    using pairs calls plan cl
    by (cases "resolutions c net_batch_down repr0 ?ps st") (simp add: run_pipeline_batch)
  have single: "\<And>s. fst (fetch_single c net_unavailable repr0 ?ps [] s) = Inr []"
    by (auto split: prod.splits sum.splits error.splits
        dest!: unavailable_stats [OF mr3, rotated])
  have "fst (run_pipeline net_unavailable repr0 ?ps False 0 state0) = Inr []"
    using cl single by (simp add: run_pipeline_def)
  with batch show ?thesis by simp
qed

end
